theory Spec2Isabelle
  imports Main "HOL-Library.AList"
begin

section \<open>The DM worker controller (dm/worker/worker.go)\<close>

text \<open>
  A shallow embedding of the Worker controller of the data-migration worker. Methods with a
  pointer receiver become functions that take the Worker and return it updated, next to
  the error they return (\<open>None\<close> is Go's \<open>nil\<close> error). What the file
  imports from other packages is either a parameter (record \<open>externals\<close>) or a
  small model written from the specification, marked as such.
\<close>

subsection \<open>Protocol enumerations (package pb)\<close>

datatype Stage =
    Stage_InvalidStage | Stage_New | Stage_Running | Stage_Paused | Stage_Stopped | Stage_Finished

datatype TaskOp =
    TaskOp_InvalidOp | TaskOp_Stop | TaskOp_Pause | TaskOp_Resume | TaskOp_Start
  | TaskOp_Update | TaskOp_AutoResume

fun Stage_String :: "Stage \<Rightarrow> string" where
  "Stage_String Stage_InvalidStage = ''InvalidStage''"
| "Stage_String Stage_New = ''New''"
| "Stage_String Stage_Running = ''Running''"
| "Stage_String Stage_Paused = ''Paused''"
| "Stage_String Stage_Stopped = ''Stopped''"
| "Stage_String Stage_Finished = ''Finished''"

fun TaskOp_String :: "TaskOp \<Rightarrow> string" where
  "TaskOp_String TaskOp_InvalidOp = ''InvalidOp''"
| "TaskOp_String TaskOp_Stop = ''Stop''"
| "TaskOp_String TaskOp_Pause = ''Pause''"
| "TaskOp_String TaskOp_Resume = ''Resume''"
| "TaskOp_String TaskOp_Start = ''Start''"
| "TaskOp_String TaskOp_Update = ''Update''"
| "TaskOp_String TaskOp_AutoResume = ''AutoResume''"

subsection \<open>Errors (packages terror and errors)\<close>

datatype error =
    ErrWorkerAlreadyClosed
  | ErrWorkerSubTaskNotFound string
  | ErrWorkerUpdateTaskStage string
  | ErrWorkerRelayIsPurging string
  | ErrWorkerFailToGetSubtaskConfigFromEtcd string
  | ErrWorkerNotRunningStage
  | ErrWorkerNotPausedStage
  | ErrAlreadyExists
  | ErrExternal string
  | Annotate error string

text \<open>\<open>errors.Cause\<close> strips the annotations; \<open>errors.IsAlreadyExists\<close> tests the kind.\<close>

fun Cause :: "error \<Rightarrow> error" where
  "Cause (Annotate err msg) = Cause err"
| "Cause err = err"

fun IsAlreadyExists :: "error \<Rightarrow> bool" where
  "IsAlreadyExists ErrAlreadyExists = True"
| "IsAlreadyExists err = False"

subsection \<open>Configurations (package config)\<close>

record BinlogEventRule =
  SchemaPattern :: string
  TablePattern :: string
  Events :: "string list"
  SQLPattern :: "string list"
  Action :: string

text \<open>
  The fields that the source configuration and the subtask configuration have under the
  same name are the fields of a common parent record, so that both keep the name. The
  field \<open>EnableRelay\<close> of the source configuration is written \<open>enable_relay\<close>,
  as in the configuration file, since the method of the Worker has the name.
\<close>

record CommonConfig =
  SourceID :: string
  From :: string
  Flavor :: string
  ServerID :: nat
  RelayDir :: string
  EnableGTID :: bool
  AutoFixGTID :: bool
  CaseSensitive :: bool

record SubTaskConfig = CommonConfig +
  Name :: string
  UseRelay :: bool
  FilterRules :: "BinlogEventRule list"

record SourceConfig = CommonConfig +
  enable_relay :: bool
  Filters :: "BinlogEventRule list"
  CheckEnable :: bool
  RelayBinLogName :: string
  RelayBinlogGTID :: string
  UUIDSuffix :: int

text \<open>
  The zero value of \<open>config.SubTaskConfig\<close> (\<open>var subTaskCfg config.SubTaskConfig\<close>):
  the empty name, \<open>UseRelay\<close> false and no filter rules after the common fields.
\<close>

definition zeroSubTaskConfig :: SubTaskConfig where
  "zeroSubTaskConfig =
     \<lparr>SourceID = '''', From = '''', Flavor = '''', ServerID = 0, RelayDir = '''',
      EnableGTID = False, AutoFixGTID = False, CaseSensitive = False,
      \<dots> = SubTaskConfig.fields '''' False []\<rparr>"

subsection \<open>Expected stages and binlog locations (packages ha and binlog)\<close>

record ha_Stage =
  Expect :: Stage
  Source :: string
  Task :: string
  IsDeleted :: bool
  Revision :: int

record Position =
  pos_Name :: string
  pos_Pos :: nat

record Location =
  loc_Position :: Position
  loc_GTIDSetStr :: string

subsection \<open>Subtasks, relay and purger\<close>

record ProcessResult =
  IsCanceled :: bool
  Errors :: "error list"

record SubTask =
  st_cfg :: SubTaskConfig
  stage :: Stage
  result :: "ProcessResult option"

record RelayHolder =
  relay_cfg :: SourceConfig
  relay_stage :: Stage
  relay_closed :: bool

record Purger =
  purging :: bool
  purger_started :: bool
  purger_closed :: bool

record TaskStatusChecker =
  checker_started :: bool
  checker_closed :: bool

record OperateWorkerSchemaRequest =
  schema_Task :: string
  schema_Body :: string

record HandleWorkerErrorRequest =
  handle_Task :: string
  handle_Body :: string

subsection \<open>What the controller calls in other packages\<close>

text \<open>
  The functions of other packages whose code is not part of the controller are parameters:
  the validity and the pattern key of a filter rule and what the library writes back into
  a rule it accepts (library binlog-filter), password
  decryption, the reads of the coordination store (package ha), the minimum checkpoint
  location, the binlog file name helpers (package binlog), the initialisation of the relay
  holder and of the status checker, the pass-through calls into a subtask's pipeline, and
  the metrics label \<open>opErrTypeBeforeOp\<close>, a constant declared beside the controller.
\<close>

record externals =
  ruleValid :: "BinlogEventRule \<Rightarrow> bool"
  ruleKey :: "bool \<Rightarrow> BinlogEventRule \<Rightarrow> string \<times> string"
  ruleRewrite :: "bool \<Rightarrow> BinlogEventRule \<Rightarrow> BinlogEventRule"
  DecryptPassword :: "SubTaskConfig \<Rightarrow> error + SubTaskConfig"
  GetSubTaskCfg :: "string \<Rightarrow> string \<Rightarrow> int \<Rightarrow> error + (string \<times> SubTaskConfig) list"
  GetSubTaskStageConfig ::
    "string \<Rightarrow> error + ((string \<times> ha_Stage) list \<times> (string \<times> SubTaskConfig) list \<times> int)"
  GetRelayStage :: "string \<Rightarrow> error + (ha_Stage \<times> int)"
  getMinLocInAllSubTasks :: "(string \<times> SubTaskConfig) list \<Rightarrow> error + Location option"
  AdjustPosition :: "Position \<Rightarrow> Position"
  ExtractSuffix :: "string \<Rightarrow> int \<times> error option"
  MinUUIDSuffix :: int
  relayHolderInit :: "SourceConfig \<Rightarrow> error + Purger"
  pipelineOperateSchema :: "SubTask \<Rightarrow> OperateWorkerSchemaRequest \<Rightarrow> string \<times> error option"
  pipelineHandleError :: "SubTask \<Rightarrow> HandleWorkerErrorRequest \<Rightarrow> error option"
  checkerInit :: "SourceConfig \<Rightarrow> error option"
  opErrTypeBeforeOp :: string

subsection \<open>The compiled event filter (library binlog-filter)\<close>

text \<open>
  Modelled from the spec: the library behind \<open>bf.NewBinlogEvent\<close> and
  \<open>filter.AddRule\<close> is not part of the sources. A compiled filter is the
  case-sensitivity it was built with and the pattern keys of the rules it holds.
  Adding a rule fails when the rule is not valid, and with an annotated
  already-exists error when a rule of the same key is held; compiling a rule list adds
  its rules in order and propagates the first error.

  The rule lists of the configurations hold pointers (\<open>[]*bf.BinlogEventRule\<close>), and
  the library rewrites a rule it is handed in place (it lower-cases the patterns for a
  filter that is not case-sensitive, for instance). \<open>ruleRewrite\<close> is what an
  accepted rule holds afterwards: \<open>AddRule\<close> returns it next to the filter, and
  \<open>NewBinlogEvent\<close> returns the rule list as it is seen through the slice it was
  given. The entries of a rule list are not \<open>nil\<close>.
\<close>

type_synonym BinlogEvent = "bool \<times> (string \<times> string) list"

definition AddRule ::
  "externals \<Rightarrow> BinlogEvent \<Rightarrow> BinlogEventRule \<Rightarrow> error + (BinlogEvent \<times> BinlogEventRule)" where
  "AddRule e flt rule =
     (if \<not> ruleValid e rule then Inl (ErrExternal ''invalid binlog event rule'')
      else if ruleKey e (fst flt) rule \<in> set (snd flt)
        then Inl (Annotate ErrAlreadyExists ''add rule into binlog event filter'')
      else Inr ((fst flt, snd flt @ [ruleKey e (fst flt) rule]), ruleRewrite e (fst flt) rule))"

fun addRules ::
  "externals \<Rightarrow> BinlogEvent \<Rightarrow> BinlogEventRule list
     \<Rightarrow> error + (BinlogEvent \<times> BinlogEventRule list)" where
  "addRules e flt [] = Inr (flt, [])"
| "addRules e flt (rule # rules) =
     (case AddRule e flt rule of
        Inl err \<Rightarrow> Inl err
      | Inr (flt', rule') \<Rightarrow>
          (case addRules e flt' rules of
             Inl err \<Rightarrow> Inl err
           | Inr (flt'', rules') \<Rightarrow> Inr (flt'', rule' # rules')))"

definition NewBinlogEvent ::
  "externals \<Rightarrow> bool \<Rightarrow> BinlogEventRule list \<Rightarrow> error + (BinlogEvent \<times> BinlogEventRule list)" where
  "NewBinlogEvent e caseSensitive rules = addRules e (caseSensitive, []) rules"

subsection \<open>copyConfigFromSource\<close>

text \<open>
  The loop over \<open>sourceCfg.Filters\<close>: an already-exists error skips the rule
  (\<open>continue\<close>), any other error is returned, and a rule that was added is appended
  to \<open>cfg.FilterRules\<close>, by the pointer that was handed to \<open>AddRule\<close>: the
  list gets the rule as the library left it.
\<close>

fun copyFilters ::
  "externals \<Rightarrow> BinlogEvent \<Rightarrow> BinlogEventRule list \<Rightarrow> SubTaskConfig \<Rightarrow> error + SubTaskConfig" where
  "copyFilters e flt [] cfg = Inr cfg"
| "copyFilters e flt (filterRule # rest) cfg =
     (case AddRule e flt filterRule of
        Inl err \<Rightarrow>
          (if IsAlreadyExists (Cause err) then copyFilters e flt rest cfg else Inl err)
      | Inr (flt', filterRule') \<Rightarrow>
          copyFilters e flt' rest (cfg\<lparr>FilterRules := FilterRules cfg @ [filterRule']\<rparr>))"

text \<open>
  After \<open>bf.NewBinlogEvent(cfg.CaseSensitive, cfg.FilterRules)\<close> the rules of
  \<open>cfg.FilterRules\<close> are the rewritten ones, since the filter was handed the pointers.
\<close>

definition copyConfigFromSource ::
  "externals \<Rightarrow> SubTaskConfig \<Rightarrow> SourceConfig \<Rightarrow> error + SubTaskConfig" where
  "copyConfigFromSource e cfg sourceCfg =
     (let cfg1 = cfg\<lparr>From := From sourceCfg,
                     Flavor := Flavor sourceCfg,
                     ServerID := ServerID sourceCfg,
                     RelayDir := RelayDir sourceCfg,
                     EnableGTID := EnableGTID sourceCfg,
                     UseRelay := enable_relay sourceCfg,
                     AutoFixGTID := AutoFixGTID sourceCfg,
                     CaseSensitive := (CaseSensitive cfg \<or> CaseSensitive sourceCfg)\<rparr>
      in case NewBinlogEvent e (CaseSensitive cfg1) (FilterRules cfg1) of
           Inl err \<Rightarrow> Inl err
         | Inr (flt, rules') \<Rightarrow>
             copyFilters e flt (Filters sourceCfg) (cfg1\<lparr>FilterRules := rules'\<rparr>))"

subsection \<open>The subtask handle and the subtask holder\<close>

text \<open>
  Modelled from the spec: the SubTask state machine (dm/worker/subtask.go) is not part of
  the sources. A new SubTask is in stage New with no result. \<open>fail\<close> records a
  result that is not cancelled and drives the task to Paused. \<open>Run\<close> drives the
  task to the expected stage when that is Running or Paused, any other expected stage
  being a configuration error. \<open>Pause\<close> is legal from Running, \<open>Resume\<close>
  from Paused, \<open>Update\<close> only in Paused, where it replaces the effective
  configuration, and \<open>Close\<close> is terminal.
\<close>

definition NewSubTask :: "SubTaskConfig \<Rightarrow> SubTask" where
  "NewSubTask cfg = \<lparr>st_cfg = cfg, stage = Stage_New, result = None\<rparr>"

definition SubTask_fail :: "error \<Rightarrow> SubTask \<Rightarrow> SubTask" where
  "SubTask_fail err st =
     st\<lparr>stage := Stage_Paused, result := Some \<lparr>IsCanceled = False, Errors = [err]\<rparr>\<rparr>"

definition SubTask_Run :: "Stage \<Rightarrow> SubTask \<Rightarrow> SubTask" where
  "SubTask_Run expectStage st =
     (if expectStage = Stage_Running \<or> expectStage = Stage_Paused
      then st\<lparr>stage := expectStage\<rparr>
      else SubTask_fail (ErrExternal ''invalid expected stage'') st)"

definition SubTask_Pause :: "SubTask \<Rightarrow> error option \<times> SubTask" where
  "SubTask_Pause st =
     (if stage st = Stage_Running then (None, st\<lparr>stage := Stage_Paused\<rparr>)
      else (Some ErrWorkerNotRunningStage, st))"

definition SubTask_Resume :: "SubTask \<Rightarrow> error option \<times> SubTask" where
  "SubTask_Resume st =
     (if stage st = Stage_Paused then (None, st\<lparr>stage := Stage_Running\<rparr>)
      else (Some ErrWorkerNotPausedStage, st))"

definition SubTask_Update :: "SubTaskConfig \<Rightarrow> SubTask \<Rightarrow> error option \<times> SubTask" where
  "SubTask_Update cfg st =
     (if stage st = Stage_Paused then (None, st\<lparr>st_cfg := cfg\<rparr>)
      else (Some ErrWorkerNotPausedStage, st))"

definition SubTask_Close :: "SubTask \<Rightarrow> SubTask" where
  "SubTask_Close st = st\<lparr>stage := Stage_Stopped\<rparr>"

text \<open>
  Modelled from the spec: the subTaskHolder (dm/worker/subtask_holder.go) is not part of
  the sources. It maps a task name to the SubTask handle; the association list gives the
  order in which a \<open>range\<close> over the map meets the entries, which Go leaves open.
  A subtask is recorded under the name of its configuration.
\<close>

type_synonym subTaskHolder = "(string \<times> SubTask) list"

definition recordSubTask :: "SubTask \<Rightarrow> subTaskHolder \<Rightarrow> subTaskHolder" where
  "recordSubTask st h = AList.update (Name (st_cfg st)) st h"

definition findSubTask :: "subTaskHolder \<Rightarrow> string \<Rightarrow> SubTask option" where
  "findSubTask h name = map_of h name"

definition removeSubTask :: "string \<Rightarrow> subTaskHolder \<Rightarrow> subTaskHolder" where
  "removeSubTask name h = AList.delete name h"

definition getAllSubTasks :: "subTaskHolder \<Rightarrow> (string \<times> SubTask) list" where
  "getAllSubTasks h = h"

definition closeAllSubTasks :: "subTaskHolder \<Rightarrow> subTaskHolder" where
  "closeAllSubTasks h = []"

subsection \<open>The Worker\<close>

text \<open>
  \<open>closed\<close> is the atomic flag (\<open>closedTrue\<close> is \<open>True\<close>),
  \<open>ctxDone\<close> says that the root context was cancelled, \<open>wg\<close> counts the
  background loops registered on the wait group. The relay holder and the purger are
  \<open>nil\<close> until EnableRelay sets them; the checker is \<open>nil\<close> unless NewWorker
  built it.
\<close>

record Worker =
  closed :: bool
  ctxDone :: bool
  wg :: nat
  cfg :: SourceConfig
  subTaskHolder :: subTaskHolder
  relayHolder :: "RelayHolder option"
  relayPurger :: "Purger option"
  taskStatusChecker :: "TaskStatusChecker option"
  name :: string

text \<open>
  A SubTask is held by pointer: what a method does to \<open>st\<close> after
  \<open>recordSubTask\<close> is seen through the holder, under the key it was recorded with.
\<close>

definition onSubTask :: "string \<Rightarrow> (SubTask \<Rightarrow> SubTask) \<Rightarrow> Worker \<Rightarrow> Worker" where
  "onSubTask key f w = w\<lparr>subTaskHolder := AList.map_entry key f (subTaskHolder w)\<rparr>"

definition StartSubTask ::
  "externals \<Rightarrow> Worker \<Rightarrow> SubTaskConfig \<Rightarrow> Stage \<Rightarrow> error option \<times> Worker" where
  "StartSubTask e w cfg0 expectStage =
     (case copyConfigFromSource e cfg0 (cfg w) of
        Inl err \<Rightarrow> (Some err, w)
      | Inr cfg1 \<Rightarrow>
          (let key = Name cfg1;
               w1 = w\<lparr>subTaskHolder := recordSubTask (NewSubTask cfg1) (subTaskHolder w)\<rparr>
           in if closed w1
              then (None, onSubTask key (SubTask_fail ErrWorkerAlreadyClosed) w1)
              else
                (case DecryptPassword e cfg1 of
                   Inl err \<Rightarrow>
                     (None, onSubTask key (SubTask_fail (Annotate err ''start sub task'')) w1)
                 | Inr cfg2 \<Rightarrow>
                     (let w2 = onSubTask key (\<lambda>st. st\<lparr>st_cfg := cfg2\<rparr>) w1
                      in if (case relayPurger w2 of None \<Rightarrow> False | Some p \<Rightarrow> purging p)
                         then (None,
                               onSubTask key (SubTask_fail (ErrWorkerRelayIsPurging (Name cfg1))) w2)
                         else (None, onSubTask key (SubTask_Run expectStage) w2)))))"

definition UpdateSubTask :: "Worker \<Rightarrow> SubTaskConfig \<Rightarrow> error option \<times> Worker" where
  "UpdateSubTask w cfg1 =
     (if closed w then (Some ErrWorkerAlreadyClosed, w)
      else
        (case findSubTask (subTaskHolder w) (Name cfg1) of
           None \<Rightarrow> (Some (ErrWorkerSubTaskNotFound (Name cfg1)), w)
         | Some st \<Rightarrow>
             (fst (SubTask_Update cfg1 st),
              onSubTask (Name cfg1) (\<lambda>st. snd (SubTask_Update cfg1 st)) w)))"

definition OperateSubTask :: "Worker \<Rightarrow> string \<Rightarrow> TaskOp \<Rightarrow> error option \<times> Worker" where
  "OperateSubTask w name1 op =
     (if closed w then (Some ErrWorkerAlreadyClosed, w)
      else
        (case findSubTask (subTaskHolder w) name1 of
           None \<Rightarrow> (Some (ErrWorkerSubTaskNotFound name1), w)
         | Some st \<Rightarrow>
             (case op of
                TaskOp_Stop \<Rightarrow>
                  (let w1 = onSubTask name1 SubTask_Close w
                   in (None, w1\<lparr>subTaskHolder := removeSubTask name1 (subTaskHolder w1)\<rparr>))
              | TaskOp_Pause \<Rightarrow>
                  (fst (SubTask_Pause st), onSubTask name1 (\<lambda>st. snd (SubTask_Pause st)) w)
              | TaskOp_Resume \<Rightarrow>
                  (fst (SubTask_Resume st), onSubTask name1 (\<lambda>st. snd (SubTask_Resume st)) w)
              | TaskOp_AutoResume \<Rightarrow>
                  (fst (SubTask_Resume st), onSubTask name1 (\<lambda>st. snd (SubTask_Resume st)) w)
              | _ \<Rightarrow>
                  (Some (ErrWorkerUpdateTaskStage
                     (''invalid operate '' @ TaskOp_String op @ '' on subtask '' @ name1)), w))))"

definition OperateSchema ::
  "externals \<Rightarrow> Worker \<Rightarrow> OperateWorkerSchemaRequest \<Rightarrow> (string \<times> error option) \<times> Worker" where
  "OperateSchema e w req =
     (if closed w then (('''', Some ErrWorkerAlreadyClosed), w)
      else
        (case findSubTask (subTaskHolder w) (schema_Task req) of
           None \<Rightarrow> (('''', Some (ErrWorkerSubTaskNotFound (schema_Task req))), w)
         | Some st \<Rightarrow> (pipelineOperateSchema e st req, w)))"

definition HandleError ::
  "externals \<Rightarrow> Worker \<Rightarrow> HandleWorkerErrorRequest \<Rightarrow> error option \<times> Worker" where
  "HandleError e w req =
     (if closed w then (Some ErrWorkerAlreadyClosed, w)
      else
        (case findSubTask (subTaskHolder w) (handle_Task req) of
           None \<Rightarrow> (Some (ErrWorkerSubTaskNotFound (handle_Task req)), w)
         | Some st \<Rightarrow> (pipelineHandleError e st req, w)))"

subsection \<open>Stage translation of the subtask follower\<close>

definition operateSubTaskStage ::
  "externals \<Rightarrow> Worker \<Rightarrow> ha_Stage \<Rightarrow> SubTaskConfig \<Rightarrow> string \<times> error option \<times> Worker" where
  "operateSubTaskStage e w stage1 subTaskCfg =
     (if Expect stage1 = Stage_Running \<or> Expect stage1 = Stage_Paused then
        (case findSubTask (subTaskHolder w) (Task stage1) of
           None \<Rightarrow> (opErrTypeBeforeOp e, StartSubTask e w subTaskCfg (Expect stage1))
         | Some st \<Rightarrow>
             (let op = (if Expect stage1 = Stage_Running then TaskOp_Resume
                        else if Expect stage1 = Stage_Paused then TaskOp_Pause
                        else TaskOp_InvalidOp)
              in (TaskOp_String op, OperateSubTask w (Task stage1) op)))
      else
        (let op = (if IsDeleted stage1 then TaskOp_Stop else TaskOp_InvalidOp)
         in (TaskOp_String op, OperateSubTask w (Task stage1) op)))"

definition operateSubTaskStageWithoutConfig ::
  "externals \<Rightarrow> Worker \<Rightarrow> ha_Stage \<Rightarrow> string \<times> error option \<times> Worker" where
  "operateSubTaskStageWithoutConfig e w stage1 =
     (if Expect stage1 = Stage_Running \<and> findSubTask (subTaskHolder w) (Task stage1) = None then
        (case GetSubTaskCfg e (Source stage1) (Task stage1) (Revision stage1) of
           Inl err \<Rightarrow>
             (opErrTypeBeforeOp e,
              Some (Annotate err ''fail to get subtask config from etcd''), w)
         | Inr tsm \<Rightarrow>
             (case map_of tsm (Task stage1) of
                None \<Rightarrow>
                  (opErrTypeBeforeOp e,
                   Some (ErrWorkerFailToGetSubtaskConfigFromEtcd (Task stage1)), w)
              | Some subTaskCfg \<Rightarrow> operateSubTaskStage e w stage1 subTaskCfg))
      else operateSubTaskStage e w stage1 zeroSubTaskConfig)"

subsection \<open>ForbidPurge\<close>

text \<open>The loop of ForbidPurge over the subtasks of the holder: the first hit returns.\<close>

fun forbidPurgeLoop :: "(string \<times> SubTask) list \<Rightarrow> bool \<times> string" where
  "forbidPurgeLoop [] = (False, '''')"
| "forbidPurgeLoop ((name1, st) # rest) =
     (if stage st = Stage_New \<or> stage st = Stage_Paused
      then (True, ''sub task '' @ Name (st_cfg st) @ '' current stage is '' @ Stage_String (stage st))
      else forbidPurgeLoop rest)"

definition ForbidPurge :: "Worker \<Rightarrow> bool \<times> string" where
  "ForbidPurge w =
     (if closed w then (False, '''')
      else forbidPurgeLoop (getAllSubTasks (subTaskHolder w)))"

subsection \<open>NewWorker and Close\<close>

definition NewWorker :: "externals \<Rightarrow> SourceConfig \<Rightarrow> string \<Rightarrow> error + Worker" where
  "NewWorker e cfg1 name1 =
     (let w = \<lparr>closed = True, ctxDone = False, wg = 0, cfg = cfg1, subTaskHolder = [],
                relayHolder = None, relayPurger = None, taskStatusChecker = None,
                name = name1\<rparr>
      in if CheckEnable cfg1 then
           (case checkerInit e cfg1 of
              Some err \<Rightarrow> Inl err
            | None \<Rightarrow>
                Inr (w\<lparr>taskStatusChecker :=
                         Some \<lparr>checker_started = False, checker_closed = False\<rparr>\<rparr>))
         else Inr w)"

text \<open>
  Close returns nothing in Go. The model returns the calls it makes, in program order, and
  the Worker it leaves; \<open>None\<close> is the nil dereference of
  \<open>w.taskStatusChecker.Close()\<close> on a Worker whose configuration enables a checker
  that was never built. Waiting on the wait group returns when no background loop is left.
\<close>

datatype step =
    CancelContext | WaitLoops | LockWorker | CloseAllSubTasks | CloseRelayHolder
  | ClosePurger | CloseChecker | SetClosed | UnlockWorker

definition Close :: "Worker \<Rightarrow> (step list \<times> Worker) option" where
  "Close w =
     (if closed w then Some ([], w)
      else
        (let w1 = w\<lparr>ctxDone := True\<rparr>;
             w2 = w1\<lparr>wg := 0\<rparr>;
             w3 = w2\<lparr>subTaskHolder := closeAllSubTasks (subTaskHolder w2)\<rparr>;
             w4 = (case relayHolder w3 of
                     None \<Rightarrow> w3
                   | Some r \<Rightarrow> w3\<lparr>relayHolder := Some (r\<lparr>relay_closed := True\<rparr>)\<rparr>);
             w5 = (case relayPurger w4 of
                     None \<Rightarrow> w4
                   | Some p \<Rightarrow> w4\<lparr>relayPurger := Some (p\<lparr>purger_closed := True\<rparr>)\<rparr>);
             pre = [CancelContext, WaitLoops, LockWorker, CloseAllSubTasks]
                   @ (if relayHolder w3 = None then [] else [CloseRelayHolder])
                   @ (if relayPurger w4 = None then [] else [ClosePurger])
         in if CheckEnable (cfg w5) then
              (case taskStatusChecker w5 of
                 None \<Rightarrow> None
               | Some c \<Rightarrow>
                   Some (pre @ [CloseChecker, SetClosed, UnlockWorker],
                         w5\<lparr>taskStatusChecker := Some (c\<lparr>checker_closed := True\<rparr>),
                            closed := True\<rparr>))
            else Some (pre @ [SetClosed, UnlockWorker], w5\<lparr>closed := True\<rparr>)))"

subsection \<open>EnableRelay\<close>

fun copyConfigFromSourceForEach ::
  "externals \<Rightarrow> (string \<times> SubTaskConfig) list \<Rightarrow> SourceConfig
     \<Rightarrow> error + (string \<times> SubTaskConfig) list" where
  "copyConfigFromSourceForEach e [] sourceCfg = Inr []"
| "copyConfigFromSourceForEach e ((k, subTaskCfg) # rest) sourceCfg =
     (case copyConfigFromSource e subTaskCfg sourceCfg of
        Inl err2 \<Rightarrow> Inl err2
      | Inr subTaskCfg' \<Rightarrow>
          (case copyConfigFromSourceForEach e rest sourceCfg of
             Inl err2 \<Rightarrow> Inl err2
           | Inr rest' \<Rightarrow> Inr ((k, subTaskCfg') # rest')))"

definition fetchSubTasksAndAdjust ::
  "externals \<Rightarrow> Worker
     \<Rightarrow> error + ((string \<times> ha_Stage) list \<times> (string \<times> SubTaskConfig) list \<times> int)" where
  "fetchSubTasksAndAdjust e w =
     (case GetSubTaskStageConfig e (SourceID (cfg w)) of
        Inl err \<Rightarrow> Inl err
      | Inr (subTaskStages, subTaskCfgM, revSubTask) \<Rightarrow>
          (case copyConfigFromSourceForEach e subTaskCfgM (cfg w) of
             Inl err \<Rightarrow> Inl err
           | Inr subTaskCfgM' \<Rightarrow> Inr (subTaskStages, subTaskCfgM', revSubTask)))"

text \<open>
  Step 1 of EnableRelay: the relay's starting position, from the minimum location.
  \<open>ExtractSuffix\<close> returns a pair, and Go stores its first component in
  \<open>w.cfg.UUIDSuffix\<close> before the error is looked at.
\<close>

definition adjustRelayStart ::
  "externals \<Rightarrow> Location option \<Rightarrow> SourceConfig \<Rightarrow> error option \<times> SourceConfig" where
  "adjustRelayStart e minLoc c =
     (case minLoc of
        Some loc \<Rightarrow>
          (let c1 = c\<lparr>RelayBinLogName := pos_Name (AdjustPosition e (loc_Position loc)),
                       RelayBinlogGTID := loc_GTIDSetStr loc\<rparr>;
               r = ExtractSuffix e (pos_Name (loc_Position loc))
           in (snd r, c1\<lparr>UUIDSuffix := fst r\<rparr>))
      | None \<Rightarrow> (None, c\<lparr>UUIDSuffix := MinUUIDSuffix e\<rparr>))"

definition EnableRelay :: "externals \<Rightarrow> Worker \<Rightarrow> error option \<times> Worker" where
  "EnableRelay e w =
     (case fetchSubTasksAndAdjust e w of
        Inl err \<Rightarrow> (Some err, w)
      | Inr (subTaskStages, subTaskCfgs, revSubTask) \<Rightarrow>
          (case getMinLocInAllSubTasks e subTaskCfgs of
             Inl err1 \<Rightarrow> (Some err1, w)
           | Inr minLoc \<Rightarrow>
               (case adjustRelayStart e minLoc (cfg w) of
                  (Some err, c) \<Rightarrow> (Some err, w\<lparr>cfg := c\<rparr>)
                | (None, c) \<Rightarrow>
                    (let w1 = w\<lparr>cfg := c\<rparr>;
                         w2 = w1\<lparr>relayHolder :=
                                  Some \<lparr>relay_cfg = c, relay_stage = Stage_New,
                                        relay_closed = False\<rparr>\<rparr>
                     in case relayHolderInit e c of
                          Inl err \<Rightarrow> (Some err, w2)
                        | Inr relayPurger1 \<Rightarrow>
                            (let w3 = w2\<lparr>relayPurger := Some relayPurger1\<rparr>
                             in case GetRelayStage e (SourceID (cfg w3)) of
                                  Inl err \<Rightarrow> (Some err, w3)
                                | Inr (relayStage, revRelay) \<Rightarrow>
                                    (let w4 =
                                       (if \<not> IsDeleted relayStage
                                           \<and> Expect relayStage = Stage_Running
                                        then w3\<lparr>relayHolder :=
                                                 map_option (\<lambda>r. r\<lparr>relay_stage := Stage_Running\<rparr>)
                                                   (relayHolder w3),
                                               relayPurger :=
                                                 Some (relayPurger1\<lparr>purger_started := True\<rparr>)\<rparr>
                                        else w3)
                                     in (None, w4\<lparr>wg := wg w4 + 1\<rparr>)))))))"

subsection \<open>EnableHandleSubtasks and resetSubtaskStage\<close>







subsection \<open>The stage translation as the specification words it\<close>

text \<open>
  Modelled from the spec: the translation of section 4.7, read literally, as the Worker it
  leaves: create when the subtask is absent, the expected stage is Running or Paused and
  the record is not deleted; else Resume for Running; else Pause for Paused; else Stop
  for a deleted record; and nothing otherwise. It is compared with
  \<open>operateSubTaskStage\<close> below.
\<close>

definition stageTranslation_spec ::
  "externals \<Rightarrow> Worker \<Rightarrow> ha_Stage \<Rightarrow> SubTaskConfig \<Rightarrow> Worker" where
  "stageTranslation_spec e w s subTaskCfg =
     (if findSubTask (subTaskHolder w) (Task s) = None
         \<and> (Expect s = Stage_Running \<or> Expect s = Stage_Paused) \<and> \<not> IsDeleted s
      then snd (StartSubTask e w subTaskCfg (Expect s))
      else if Expect s = Stage_Running then snd (OperateSubTask w (Task s) TaskOp_Resume)
      else if Expect s = Stage_Paused then snd (OperateSubTask w (Task s) TaskOp_Pause)
      else if IsDeleted s then snd (OperateSubTask w (Task s) TaskOp_Stop)
      else w)"

subsection \<open>Example inputs\<close>

text \<open>
  An example library: a rule is valid when its action is Do or Ignore; an accepted rule
  has its event names in lower case and, for a filter that is not case-sensitive, its
  patterns too; the key of a rule is the pair of its patterns as the filter stores them.
\<close>

definition toLower :: "char \<Rightarrow> char" where
  "toLower ch =
     (case map_of (zip ''ABCDEFGHIJKLMNOPQRSTUVWXYZ'' ''abcdefghijklmnopqrstuvwxyz'') ch of
        None \<Rightarrow> ch
      | Some l \<Rightarrow> l)"

definition ex_rewrite :: "bool \<Rightarrow> BinlogEventRule \<Rightarrow> BinlogEventRule" where
  "ex_rewrite caseSensitive r =
     r\<lparr>SchemaPattern := (if caseSensitive then SchemaPattern r else map toLower (SchemaPattern r)),
       TablePattern := (if caseSensitive then TablePattern r else map toLower (TablePattern r)),
       Events := map (map toLower) (Events r)\<rparr>"

text \<open>
  An example of the binlog helpers on the three locations of scenario S6, and of the
  persisted checkpoints of three subtasks. Locations are ordered by file name
  (the names are zero-padded, so string order is theirs) and then by offset; the minimum is
  taken over the checkpoints of the configurations it is given.
\<close>

fun strLess :: "string \<Rightarrow> string \<Rightarrow> bool" where
  "strLess [] [] = False"
| "strLess [] (y # ys) = True"
| "strLess (x # xs) [] = False"
| "strLess (x # xs) (y # ys) =
     ((of_char x :: nat) < of_char y \<or> (x = y \<and> strLess xs ys))"

definition locLess :: "Location \<Rightarrow> Location \<Rightarrow> bool" where
  "locLess a b =
     (strLess (pos_Name (loc_Position a)) (pos_Name (loc_Position b))
      \<or> (pos_Name (loc_Position a) = pos_Name (loc_Position b)
          \<and> pos_Pos (loc_Position a) < pos_Pos (loc_Position b)))"

definition ex_location :: "string \<Rightarrow> nat \<Rightarrow> string \<Rightarrow> Location" where
  "ex_location file offset gtid =
     \<lparr>loc_Position = \<lparr>pos_Name = file, pos_Pos = offset\<rparr>, loc_GTIDSetStr = gtid\<rparr>"

definition ex_checkpoints :: "(string \<times> Location) list" where
  "ex_checkpoints =
     [(''t1'', ex_location ''mysql-bin|000003.000123'' 4 ''uuid-1:1-30''),
      (''t2'', ex_location ''mysql-bin|000004.000000'' 4 ''uuid-1:1-40''),
      (''t3'', ex_location ''mysql-bin|000003.000050'' 154 ''uuid-1:1-20'')]"

fun ex_minLoc :: "(string \<times> SubTaskConfig) list \<Rightarrow> Location option" where
  "ex_minLoc [] = None"
| "ex_minLoc ((k, c) # rest) =
     (case (map_of ex_checkpoints (Name c), ex_minLoc rest) of
        (None, m) \<Rightarrow> m
      | (Some l, None) \<Rightarrow> Some l
      | (Some l, Some m) \<Rightarrow> if locLess m l then Some m else Some l)"

definition ex_externals :: externals where
  "ex_externals =
     \<lparr>ruleValid = (\<lambda>r. Action r = ''Do'' \<or> Action r = ''Ignore''),
      ruleKey = (\<lambda>cs r. (SchemaPattern (ex_rewrite cs r), TablePattern (ex_rewrite cs r))),
      ruleRewrite = ex_rewrite,
      DecryptPassword = Inr,
      GetSubTaskCfg = (\<lambda>source task rev. Inr []),
      GetSubTaskStageConfig = (\<lambda>source. Inr ([], [], 7)),
      GetRelayStage =
        (\<lambda>source. Inr (\<lparr>Expect = Stage_Running, Source = source, Task = '''',
                            IsDeleted = False, Revision = 7\<rparr>, 7)),
      getMinLocInAllSubTasks = (\<lambda>cfgs. Inr (ex_minLoc cfgs)),
      AdjustPosition =
        (\<lambda>p. case map_of [(''mysql-bin|000003.000123'', ''mysql-bin.000123''),
                            (''mysql-bin|000004.000000'', ''mysql-bin.000000''),
                            (''mysql-bin|000003.000050'', ''mysql-bin.000050'')] (pos_Name p) of
                None \<Rightarrow> p
              | Some file \<Rightarrow> p\<lparr>pos_Name := file\<rparr>),
      ExtractSuffix =
        (\<lambda>n. case map_of [(''mysql-bin|000003.000123'', 3), (''mysql-bin|000004.000000'', 4),
                            (''mysql-bin|000003.000050'', 3)] n of
                None \<Rightarrow> (1, None)
              | Some suffix \<Rightarrow> (suffix, None)),
      MinUUIDSuffix = 1,
      relayHolderInit =
        (\<lambda>c. Inr \<lparr>purging = False, purger_started = False, purger_closed = False\<rparr>),
      pipelineOperateSchema = (\<lambda>st req. ('''', None)),
      pipelineHandleError = (\<lambda>st req. None),
      checkerInit = (\<lambda>c. None),
      opErrTypeBeforeOp = ''BeforeAnyOp''\<rparr>"

definition ex_rule :: "string \<Rightarrow> string \<Rightarrow> BinlogEventRule" where
  "ex_rule schema action =
     \<lparr>SchemaPattern = schema, TablePattern = ''*'', Events = [''all dml''], SQLPattern = [],
      Action = action\<rparr>"

definition ex_source :: SourceConfig where
  "ex_source =
     \<lparr>SourceID = ''mysql-01'', From = ''upstream'', Flavor = ''mysql'', ServerID = 101,
      RelayDir = ''relay'', EnableGTID = True, AutoFixGTID = False, CaseSensitive = True,
      enable_relay = True, Filters = [ex_rule ''db1'' ''Ignore'', ex_rule ''db2'' ''Do''],
      CheckEnable = True, RelayBinLogName = '''', RelayBinlogGTID = '''', UUIDSuffix = 0\<rparr>"

definition ex_task :: SubTaskConfig where
  "ex_task =
     zeroSubTaskConfig\<lparr>Name := ''t'', SourceID := ''mysql-01'',
       FilterRules := [ex_rule ''db1'' ''Do'']\<rparr>"

definition ex_task_projected :: SubTaskConfig where
  "ex_task_projected =
     ex_task\<lparr>From := ''upstream'', Flavor := ''mysql'', ServerID := 101, RelayDir := ''relay'',
       EnableGTID := True, UseRelay := True, CaseSensitive := True,
       FilterRules := [ex_rule ''db1'' ''Do'', ex_rule ''db2'' ''Do'']\<rparr>"

definition ex_task_invalid :: SubTaskConfig where
  "ex_task_invalid = ex_task\<lparr>FilterRules := [ex_rule ''db1'' '''']\<rparr>"

text \<open>
  A source and a task that are not case-sensitive, with patterns and an event name in
  upper case: the first source rule has the key of the task's rule, the second is new.
\<close>

definition ex_source_ci :: SourceConfig where
  "ex_source_ci =
     ex_source\<lparr>CaseSensitive := False,
       Filters := [ex_rule ''Db1'' ''Ignore'',
                   (ex_rule ''DB2'' ''Do'')\<lparr>Events := [''ALL DML'']\<rparr>]\<rparr>"

definition ex_task_ci :: SubTaskConfig where
  "ex_task_ci = ex_task\<lparr>FilterRules := [ex_rule ''DB1'' ''Do'']\<rparr>"

definition ex_task_ci_projected :: SubTaskConfig where
  "ex_task_ci_projected =
     ex_task\<lparr>From := ''upstream'', Flavor := ''mysql'', ServerID := 101, RelayDir := ''relay'',
       EnableGTID := True, UseRelay := True, CaseSensitive := False,
       FilterRules := [ex_rule ''db1'' ''Do'', ex_rule ''db2'' ''Do'']\<rparr>"

definition ex_open :: Worker where
  "ex_open =
     \<lparr>closed = False, ctxDone = False, wg = 1, cfg = ex_source, subTaskHolder = [],
      relayHolder = None, relayPurger = None,
      taskStatusChecker = Some \<lparr>checker_started = True, checker_closed = False\<rparr>,
      name = ''worker1''\<rparr>"

definition ex_closed :: Worker where
  "ex_closed = ex_open\<lparr>closed := True\<rparr>"

definition ex_subtask :: "string \<Rightarrow> Stage \<Rightarrow> SubTask" where
  "ex_subtask task s = \<lparr>st_cfg = ex_task_projected\<lparr>Name := task\<rparr>, stage = s, result = None\<rparr>"

definition ex_holding :: "(string \<times> Stage) list \<Rightarrow> Worker" where
  "ex_holding tasks = ex_open\<lparr>subTaskHolder := map (\<lambda>(n, s). (n, ex_subtask n s)) tasks\<rparr>"

definition ex_stage :: "Stage \<Rightarrow> bool \<Rightarrow> ha_Stage" where
  "ex_stage expect deleted =
     \<lparr>Expect = expect, Source = ''mysql-01'', Task = ''t'', IsDeleted = deleted, Revision = 7\<rparr>"

text \<open>
  A store with the three subtasks of scenario S6, and a store whose only stage is marked
  deleted and expects Running.
\<close>

definition ex_externals_s6 :: externals where
  "ex_externals_s6 =
     ex_externals\<lparr>GetSubTaskStageConfig :=
       (\<lambda>source.
          Inr (map (\<lambda>n. (n, (ex_stage Stage_Running False)\<lparr>Task := n\<rparr>)) [''t1'', ''t2'', ''t3''],
               map (\<lambda>n. (n, ex_task\<lparr>Name := n\<rparr>)) [''t1'', ''t2'', ''t3''],
               7))\<rparr>"


section \<open>Properties\<close>

subsection \<open>The filter and the configuration projection\<close>

lemma AddRule_Inr:
  "AddRule e (cs, ks) r = Inr (flt', r') \<longleftrightarrow>
     ruleValid e r \<and> ruleKey e cs r \<notin> set ks \<and> flt' = (cs, ks @ [ruleKey e cs r]) \<and>
     r' = ruleRewrite e cs r"
  by (auto simp: AddRule_def)

lemma AddRule_exists:
  "AddRule e (cs, ks) r = Inl err \<Longrightarrow> IsAlreadyExists (Cause err) \<Longrightarrow>
     ruleValid e r \<and> ruleKey e cs r \<in> set ks"
  by (auto simp: AddRule_def split: if_splits)

lemma AddRule_skip:
  "ruleValid e r \<Longrightarrow> ruleKey e cs r \<in> set ks \<Longrightarrow>
     \<exists>err. AddRule e (cs, ks) r = Inl err \<and> IsAlreadyExists (Cause err)"
  by (simp add: AddRule_def)

lemma addRules_ok:
  "addRules e (cs, ks) rs = Inr (flt', rs') \<Longrightarrow>
     flt' = (cs, ks @ map (ruleKey e cs) rs) \<and> rs' = map (ruleRewrite e cs) rs \<and>
     list_all (ruleValid e) rs \<and>
     distinct (map (ruleKey e cs) rs) \<and> set ks \<inter> set (map (ruleKey e cs) rs) = {}"
proof (induction rs arbitrary: ks flt' rs')
  case Nil
  then show ?case by simp
next
  case (Cons r rs)
  from Cons.prems obtain flt1 r1 flt2 rs2 where a: "AddRule e (cs, ks) r = Inr (flt1, r1)"
    and b: "addRules e flt1 rs = Inr (flt2, rs2)" and c: "flt' = flt2" "rs' = r1 # rs2"
    by (auto split: sum.splits prod.splits)
  from a have v: "ruleValid e r" and k: "ruleKey e cs r \<notin> set ks"
    and f: "flt1 = (cs, ks @ [ruleKey e cs r])" and r1: "r1 = ruleRewrite e cs r"
    by (simp_all add: AddRule_Inr)
  from Cons.IH [of "ks @ [ruleKey e cs r]" flt2 rs2] b f
  have ih: "flt2 = (cs, (ks @ [ruleKey e cs r]) @ map (ruleKey e cs) rs)"
    "rs2 = map (ruleRewrite e cs) rs"
    "list_all (ruleValid e) rs" "distinct (map (ruleKey e cs) rs)"
    "set (ks @ [ruleKey e cs r]) \<inter> set (map (ruleKey e cs) rs) = {}"
    by simp_all
  from ih v k c r1 show ?case by auto
qed

lemma addRules_all_valid_distinct:
  "list_all (ruleValid e) rs \<Longrightarrow> distinct (ks @ map (ruleKey e cs) rs) \<Longrightarrow>
   addRules e (cs, ks) rs =
     Inr ((cs, ks @ map (ruleKey e cs) rs), map (ruleRewrite e cs) rs)"
proof (induction rs arbitrary: ks)
  case Nil
  then show ?case by simp
next
  case (Cons r rs)
  from Cons.prems
  have a: "AddRule e (cs, ks) r = Inr ((cs, ks @ [ruleKey e cs r]), ruleRewrite e cs r)"
    by (auto simp: AddRule_Inr)
  from Cons.prems have "addRules e (cs, ks @ [ruleKey e cs r]) rs
      = Inr ((cs, (ks @ [ruleKey e cs r]) @ map (ruleKey e cs) rs), map (ruleRewrite e cs) rs)"
    by (intro Cons.IH) auto
  with a show ?case by simp
qed

lemma copyFilters_ok:
  "copyFilters e (cs, ks) fs c = Inr c' \<Longrightarrow> distinct ks \<Longrightarrow>
   \<exists>added. c' = c\<lparr>FilterRules := FilterRules c @ map (ruleRewrite e cs) added\<rparr> \<and>
      list_all (ruleValid e) fs \<and> set added \<subseteq> set fs \<and>
      distinct (ks @ map (ruleKey e cs) added) \<and>
      set (map (ruleKey e cs) fs) \<subseteq> set ks \<union> set (map (ruleKey e cs) added)"
proof (induction fs arbitrary: ks c)
  case Nil
  then show ?case by (auto intro: exI [of _ "[]"])
next
  case (Cons f fs)
  show ?case
  proof (cases "AddRule e (cs, ks) f")
    case (Inl err)
    with Cons.prems have ex: "IsAlreadyExists (Cause err)"
      and rest: "copyFilters e (cs, ks) fs c = Inr c'"
      by (auto split: if_splits)
    from AddRule_exists [OF Inl ex] have v: "ruleValid e f" and k: "ruleKey e cs f \<in> set ks"
      by simp_all
    from Cons.IH [OF rest Cons.prems(2)] obtain added where
      "c' = c\<lparr>FilterRules := FilterRules c @ map (ruleRewrite e cs) added\<rparr>"
      "list_all (ruleValid e) fs" "set added \<subseteq> set fs"
      "distinct (ks @ map (ruleKey e cs) added)"
      "set (map (ruleKey e cs) fs) \<subseteq> set ks \<union> set (map (ruleKey e cs) added)"
      by blast
    with v k show ?thesis by (intro exI [of _ added]) auto
  next
    case (Inr p)
    obtain flt1 f1 where p: "p = (flt1, f1)" by (cases p)
    from Inr p have v: "ruleValid e f" and k: "ruleKey e cs f \<notin> set ks"
      and f: "flt1 = (cs, ks @ [ruleKey e cs f])" and f1: "f1 = ruleRewrite e cs f"
      by (simp_all add: AddRule_Inr)
    from Cons.prems Inr p f f1
    have rest: "copyFilters e (cs, ks @ [ruleKey e cs f]) fs
        (c\<lparr>FilterRules := FilterRules c @ [ruleRewrite e cs f]\<rparr>) = Inr c'"
      by simp
    from Cons.prems(2) k have d: "distinct (ks @ [ruleKey e cs f])" by simp
    from Cons.IH [OF rest d] obtain added where
      a: "c' = c\<lparr>FilterRules := FilterRules c @ [ruleRewrite e cs f]\<rparr>
            \<lparr>FilterRules := FilterRules (c\<lparr>FilterRules := FilterRules c @ [ruleRewrite e cs f]\<rparr>)
               @ map (ruleRewrite e cs) added\<rparr>"
      and b: "list_all (ruleValid e) fs" "set added \<subseteq> set fs"
      "distinct ((ks @ [ruleKey e cs f]) @ map (ruleKey e cs) added)"
      "set (map (ruleKey e cs) fs) \<subseteq> set (ks @ [ruleKey e cs f]) \<union> set (map (ruleKey e cs) added)"
      by blast
    from a b v show ?thesis by (intro exI [of _ "f # added"]) auto
  qed
qed

lemma copyFilters_skip_all:
  "list_all (ruleValid e) fs \<Longrightarrow> set (map (ruleKey e cs) fs) \<subseteq> set ks \<Longrightarrow>
   copyFilters e (cs, ks) fs c = Inr c"
proof (induction fs)
  case Nil
  then show ?case by simp
next
  case (Cons f fs)
  from Cons.prems have "ruleValid e f" "ruleKey e cs f \<in> set ks" by simp_all
  from AddRule_skip [OF this] obtain err where
    "AddRule e (cs, ks) f = Inl err" "IsAlreadyExists (Cause err)" by blast
  moreover from Cons have "copyFilters e (cs, ks) fs c = Inr c" by simp
  ultimately show ?case by simp
qed

text \<open>What a successful projection looks like.\<close>

lemma copyConfigFromSource_shape:
  assumes "copyConfigFromSource e c sourceCfg = Inr c1"
  shows "\<exists>added. c1 = c\<lparr>From := From sourceCfg,
                     Flavor := Flavor sourceCfg,
                     ServerID := ServerID sourceCfg,
                     RelayDir := RelayDir sourceCfg,
                     EnableGTID := EnableGTID sourceCfg,
                     UseRelay := enable_relay sourceCfg,
                     AutoFixGTID := AutoFixGTID sourceCfg,
                     CaseSensitive := (CaseSensitive c \<or> CaseSensitive sourceCfg),
                     FilterRules :=
                       map (ruleRewrite e (CaseSensitive c \<or> CaseSensitive sourceCfg))
                         (FilterRules c @ added)\<rparr> \<and>
      set added \<subseteq> set (Filters sourceCfg) \<and>
      list_all (ruleValid e) (FilterRules c) \<and>
      list_all (ruleValid e) (Filters sourceCfg) \<and>
      distinct (map (ruleKey e (CaseSensitive c \<or> CaseSensitive sourceCfg)) (FilterRules c @ added)) \<and>
      set (map (ruleKey e (CaseSensitive c \<or> CaseSensitive sourceCfg)) (Filters sourceCfg))
        \<subseteq> set (map (ruleKey e (CaseSensitive c \<or> CaseSensitive sourceCfg)) (FilterRules c @ added))"
proof -
  define cs where "cs = (CaseSensitive c \<or> CaseSensitive sourceCfg)"
  define c0 where "c0 = c\<lparr>From := From sourceCfg,
                     Flavor := Flavor sourceCfg,
                     ServerID := ServerID sourceCfg,
                     RelayDir := RelayDir sourceCfg,
                     EnableGTID := EnableGTID sourceCfg,
                     UseRelay := enable_relay sourceCfg,
                     AutoFixGTID := AutoFixGTID sourceCfg,
                     CaseSensitive := cs\<rparr>"
  from assms obtain flt rs' where n: "NewBinlogEvent e cs (FilterRules c) = Inr (flt, rs')"
    and l: "copyFilters e flt (Filters sourceCfg) (c0\<lparr>FilterRules := rs'\<rparr>) = Inr c1"
    by (auto simp: copyConfigFromSource_def Let_def cs_def c0_def split: sum.splits prod.splits)
  let ?R = "FilterRules c"
  let ?k = "ruleKey e cs"
  from n have n': "addRules e (cs, []) ?R = Inr (flt, rs')" by (simp add: NewBinlogEvent_def)
  from addRules_ok [OF n'] have flt: "flt = (cs, map ?k ?R)"
    and rs': "rs' = map (ruleRewrite e cs) ?R" and vR: "list_all (ruleValid e) ?R"
    and dR: "distinct (map ?k ?R)" by simp_all
  from copyFilters_ok [OF l [unfolded flt] dR] obtain added where
    c1: "c1 = c0\<lparr>FilterRules := rs'\<rparr>
           \<lparr>FilterRules := FilterRules (c0\<lparr>FilterRules := rs'\<rparr>) @ map (ruleRewrite e cs) added\<rparr>"
    and vF: "list_all (ruleValid e) (Filters sourceCfg)" and sA: "set added \<subseteq> set (Filters sourceCfg)"
    and dA: "distinct (map ?k ?R @ map ?k added)"
    and sub: "set (map ?k (Filters sourceCfg)) \<subseteq> set (map ?k ?R) \<union> set (map ?k added)"
    by blast
  show ?thesis
    unfolding cs_def [symmetric]
    using c1 vF sA vR dA sub rs' by (intro exI [of _ added]) (simp add: c0_def)
qed

lemma copyConfigFromSource_Name:
  "copyConfigFromSource e c sourceCfg = Inr c1 \<Longrightarrow> Name c1 = Name c"
  by (drule copyConfigFromSource_shape) auto

text \<open>
  Claim C8. copyConfigFromSource is idempotent: when one application to a subtask
  configuration \<open>c\<close> and a source configuration succeeds with \<open>c1\<close>, a second
  application, to \<open>c1\<close>, succeeds with the same \<open>c1\<close> (the filter rules and
  every other field included), and the case-sensitivity of \<open>c1\<close> is the disjunction
  of the two inputs. The library rewrites in place the rules it is handed, those of the
  source among them, so the second application may meet each filter of the source as it
  was or as the first application left it: \<open>fs'\<close> is any such list, and the result is
  \<open>c1\<close> on it too. What is assumed of the library, for the rules of \<open>c\<close> and of
  the source at the case-sensitivity of the projection: rewriting a rewritten rule changes
  nothing, and a rule and its rewriting have the same key and the same validity.
\<close>

theorem copyConfigFromSource_idempotent:
  assumes ok: "copyConfigFromSource e c sourceCfg = Inr c1"
    and lib: "\<forall>r \<in> set (FilterRules c) \<union> set (Filters sourceCfg).
        ruleRewrite e (CaseSensitive c \<or> CaseSensitive sourceCfg)
            (ruleRewrite e (CaseSensitive c \<or> CaseSensitive sourceCfg) r)
          = ruleRewrite e (CaseSensitive c \<or> CaseSensitive sourceCfg) r \<and>
        ruleKey e (CaseSensitive c \<or> CaseSensitive sourceCfg)
            (ruleRewrite e (CaseSensitive c \<or> CaseSensitive sourceCfg) r)
          = ruleKey e (CaseSensitive c \<or> CaseSensitive sourceCfg) r \<and>
        ruleValid e (ruleRewrite e (CaseSensitive c \<or> CaseSensitive sourceCfg) r) = ruleValid e r"
    and seen: "list_all2
        (\<lambda>f f'. f' = f \<or> f' = ruleRewrite e (CaseSensitive c \<or> CaseSensitive sourceCfg) f)
        (Filters sourceCfg) fs'"
  shows "copyConfigFromSource e c1 sourceCfg = Inr c1 \<and>
         copyConfigFromSource e c1 (sourceCfg\<lparr>Filters := fs'\<rparr>) = Inr c1 \<and>
         CaseSensitive c1 = (CaseSensitive c \<or> CaseSensitive sourceCfg)"
proof -
  define cs where "cs = (CaseSensitive c \<or> CaseSensitive sourceCfg)"
  let ?k = "ruleKey e cs"
  let ?rw = "ruleRewrite e cs"
  from copyConfigFromSource_shape [OF ok] obtain added where
    c1: "c1 = c\<lparr>From := From sourceCfg,
                     Flavor := Flavor sourceCfg,
                     ServerID := ServerID sourceCfg,
                     RelayDir := RelayDir sourceCfg,
                     EnableGTID := EnableGTID sourceCfg,
                     UseRelay := enable_relay sourceCfg,
                     AutoFixGTID := AutoFixGTID sourceCfg,
                     CaseSensitive := cs,
                     FilterRules := map ?rw (FilterRules c @ added)\<rparr>"
    and sA: "set added \<subseteq> set (Filters sourceCfg)"
    and vR: "list_all (ruleValid e) (FilterRules c)"
    and vF: "list_all (ruleValid e) (Filters sourceCfg)"
    and d: "distinct (map ?k (FilterRules c @ added))"
    and sub: "set (map ?k (Filters sourceCfg)) \<subseteq> set (map ?k (FilterRules c @ added))"
    unfolding cs_def by blast
  let ?RA = "FilterRules c @ added"
  have inv: "r \<in> set ?RA \<union> set (Filters sourceCfg) \<Longrightarrow>
      ?rw (?rw r) = ?rw r \<and> ?k (?rw r) = ?k r \<and> ruleValid e (?rw r) = ruleValid e r" for r
    using lib sA unfolding cs_def by auto
  have vRA: "list_all (ruleValid e) ?RA"
    using vR vF sA by (auto simp: list_all_iff)
  have R1: "FilterRules c1 = map ?rw ?RA" by (simp add: c1)
  have cs1: "CaseSensitive c1 = cs" by (simp add: c1)
  have "map (\<lambda>r. ?k (?rw r)) ?RA = map ?k ?RA"
    by (rule map_cong) (use inv in auto)
  then have keys1: "map ?k (map ?rw ?RA) = map ?k ?RA"
    by (simp add: comp_def)
  have "map (\<lambda>r. ?rw (?rw r)) ?RA = map ?rw ?RA"
    by (rule map_cong) (use inv in auto)
  then have rw1: "map ?rw (map ?rw ?RA) = map ?rw ?RA"
    by (simp add: comp_def)
  have v1: "list_all (ruleValid e) (map ?rw ?RA)"
    using vRA inv by (auto simp: list_all_iff)
  have d1: "distinct ([] @ map ?k (map ?rw ?RA))"
    using d by (simp only: keys1 append_Nil)
  have "addRules e (cs, []) (map ?rw ?RA) =
      Inr ((cs, [] @ map ?k (map ?rw ?RA)), map ?rw (map ?rw ?RA))"
    using v1 d1 by (rule addRules_all_valid_distinct)
  then have new2: "NewBinlogEvent e cs (FilterRules c1) = Inr ((cs, map ?k ?RA), map ?rw ?RA)"
    by (simp only: keys1 rw1 append_Nil NewBinlogEvent_def R1)
  have proj: "c1\<lparr>From := From sourceCfg,
                     Flavor := Flavor sourceCfg,
                     ServerID := ServerID sourceCfg,
                     RelayDir := RelayDir sourceCfg,
                     EnableGTID := EnableGTID sourceCfg,
                     UseRelay := enable_relay sourceCfg,
                     AutoFixGTID := AutoFixGTID sourceCfg,
                     CaseSensitive := cs,
                     FilterRules := map ?rw ?RA\<rparr> = c1"
    by (simp add: c1)
  have seen_ok: "list_all (ruleValid e) fs \<and> set (map ?k fs) \<subseteq> set (map ?k ?RA)"
    if l2: "list_all2 (\<lambda>f f'. f' = f \<or> f' = ?rw f) (Filters sourceCfg) fs" for fs
  proof -
    have "ruleValid e f' \<and> ?k f' \<in> set (map ?k ?RA)" if m: "f' \<in> set fs" for f'
    proof -
      from m obtain i where i: "i < length fs" "f' = fs ! i"
        by (auto simp: in_set_conv_nth)
      from l2 have len: "length (Filters sourceCfg) = length fs"
        by (rule list_all2_lengthD)
      define f where "f = Filters sourceCfg ! i"
      from i len have f: "f \<in> set (Filters sourceCfg)"
        by (simp add: f_def)
      from l2 i len have ff: "f' = f \<or> f' = ?rw f"
        by (simp add: f_def list_all2_conv_all_nth)
      from f vF have "ruleValid e f" by (simp add: list_all_iff)
      moreover from f sub have "?k f \<in> set (map ?k ?RA)" by auto
      ultimately show ?thesis using ff inv [of f] f by auto
    qed
    then have "\<forall>f' \<in> set fs. ruleValid e f' \<and> ?k f' \<in> set (map ?k ?RA)"
      by blast
    then show ?thesis
      unfolding list_all_iff by (simp only: set_map) blast
  qed
  have second: "copyConfigFromSource e c1 (sourceCfg\<lparr>Filters := fs\<rparr>) = Inr c1"
    if "list_all2 (\<lambda>f f'. f' = f \<or> f' = ?rw f) (Filters sourceCfg) fs" for fs
  proof -
    from seen_ok [OF that] have "copyFilters e (cs, map ?k ?RA) fs c1 = Inr c1"
      by (intro copyFilters_skip_all) auto
    then show ?thesis
      unfolding copyConfigFromSource_def Let_def
      using new2 cs1 proj by (simp add: cs_def)
  qed
  have refl: "list_all2 (\<lambda>f f'. f' = f \<or> f' = ?rw f) (Filters sourceCfg) (Filters sourceCfg)"
    by (simp add: list_all2_same)
  from second [OF refl] have a: "copyConfigFromSource e c1 sourceCfg = Inr c1" by simp
  from second [of fs'] seen have b: "copyConfigFromSource e c1 (sourceCfg\<lparr>Filters := fs'\<rparr>) = Inr c1"
    by (simp add: cs_def)
  from a b cs1 show ?thesis by (simp add: cs_def)
qed

lemmas ex_filter_defs =
  copyConfigFromSource_def NewBinlogEvent_def AddRule_def ex_externals_def ex_rewrite_def
  toLower_def ex_rule_def zeroSubTaskConfig_def SubTaskConfig.defs

lemma ex_projection:
  "copyConfigFromSource ex_externals ex_task ex_source = Inr ex_task_projected"
  by (simp add: ex_filter_defs ex_task_def ex_source_def ex_task_projected_def)

lemma ex_projection_ci:
  "copyConfigFromSource ex_externals ex_task_ci ex_source_ci = Inr ex_task_ci_projected"
  by (simp add: ex_filter_defs ex_task_def ex_task_ci_def ex_source_def ex_source_ci_def
      ex_task_ci_projected_def)

text \<open>
  A task and a source that are not case-sensitive, with patterns in upper case: the
  projection lower-cases them, and projecting again, on the source as it was and on the
  source with its filters lower-cased, changes nothing.
\<close>

theorem copyConfigFromSource_idempotent_witness:
  "copyConfigFromSource ex_externals ex_task_ci ex_source_ci = Inr ex_task_ci_projected \<and>
   FilterRules ex_task_ci = [ex_rule ''DB1'' ''Do''] \<and>
   FilterRules ex_task_ci_projected = [ex_rule ''db1'' ''Do'', ex_rule ''db2'' ''Do''] \<and>
   copyConfigFromSource ex_externals ex_task_ci_projected ex_source_ci = Inr ex_task_ci_projected \<and>
   copyConfigFromSource ex_externals ex_task_ci_projected
     (ex_source_ci\<lparr>Filters := [ex_rule ''db1'' ''Ignore'', ex_rule ''db2'' ''Do'']\<rparr>)
     = Inr ex_task_ci_projected \<and>
   \<not> CaseSensitive ex_task_ci_projected"
proof -
  have cs: "(CaseSensitive ex_task_ci \<or> CaseSensitive ex_source_ci) = False"
    by (simp add: ex_task_ci_def ex_task_def ex_source_ci_def zeroSubTaskConfig_def
        SubTaskConfig.defs)
  have lib: "\<forall>r \<in> set (FilterRules ex_task_ci) \<union> set (Filters ex_source_ci).
        ruleRewrite ex_externals (CaseSensitive ex_task_ci \<or> CaseSensitive ex_source_ci)
            (ruleRewrite ex_externals (CaseSensitive ex_task_ci \<or> CaseSensitive ex_source_ci) r)
          = ruleRewrite ex_externals (CaseSensitive ex_task_ci \<or> CaseSensitive ex_source_ci) r \<and>
        ruleKey ex_externals (CaseSensitive ex_task_ci \<or> CaseSensitive ex_source_ci)
            (ruleRewrite ex_externals (CaseSensitive ex_task_ci \<or> CaseSensitive ex_source_ci) r)
          = ruleKey ex_externals (CaseSensitive ex_task_ci \<or> CaseSensitive ex_source_ci) r \<and>
        ruleValid ex_externals
            (ruleRewrite ex_externals (CaseSensitive ex_task_ci \<or> CaseSensitive ex_source_ci) r)
          = ruleValid ex_externals r"
    unfolding cs
    by (simp add: ex_task_ci_def ex_source_ci_def ex_externals_def ex_rewrite_def toLower_def
        ex_rule_def)
  have seen: "list_all2
        (\<lambda>f f'. f' = f \<or>
           f' = ruleRewrite ex_externals (CaseSensitive ex_task_ci \<or> CaseSensitive ex_source_ci) f)
        (Filters ex_source_ci) [ex_rule ''db1'' ''Ignore'', ex_rule ''db2'' ''Do'']"
    unfolding cs
    by (simp add: ex_source_ci_def ex_externals_def ex_rewrite_def toLower_def ex_rule_def)
  have r: "FilterRules ex_task_ci = [ex_rule ''DB1'' ''Do'']"
    "FilterRules ex_task_ci_projected = [ex_rule ''db1'' ''Do'', ex_rule ''db2'' ''Do'']"
    by (simp_all add: ex_task_ci_def ex_task_ci_projected_def)
  from copyConfigFromSource_idempotent [OF ex_projection_ci lib seen] ex_projection_ci r cs
  show ?thesis by simp
qed

subsection \<open>The holder\<close>

lemma findSubTask_recordSubTask:
  "findSubTask (recordSubTask st h) n =
     (if n = Name (st_cfg st) then Some st else findSubTask h n)"
  by (simp add: findSubTask_def recordSubTask_def update_conv')

lemma findSubTask_onSubTask:
  "findSubTask (subTaskHolder (onSubTask k f w)) n =
     (if n = k then map_option f (findSubTask (subTaskHolder w) k)
      else findSubTask (subTaskHolder w) n)"
  by (simp add: findSubTask_def onSubTask_def map_of_map_entry split: option.splits)

lemma findSubTask_removeSubTask:
  "findSubTask (removeSubTask k h) n = (if n = k then None else findSubTask h n)"
  by (simp add: findSubTask_def removeSubTask_def delete_conv')

lemma closed_onSubTask [simp]: "closed (onSubTask k f w) = closed w"
  by (simp add: onSubTask_def)

lemma relayPurger_onSubTask [simp]: "relayPurger (onSubTask k f w) = relayPurger w"
  by (simp add: onSubTask_def)

subsection \<open>StartSubTask\<close>

text \<open>
  Claim C3, amended. StartSubTask returns an error only when the configuration projection
  fails, and then records nothing and leaves the Worker as it was (second premise). When
  the projection succeeds (first premise) it returns success and the holder has a SubTask
  under the name of the configuration: on a closed Worker that SubTask is Paused with the
  already-closed error as its result; on an open Worker it is Paused with the decryption
  error, or with the relay-is-purging error, when decryption fails or the purger is
  purging, and otherwise it is the new SubTask run to the expected stage.
\<close>

theorem StartSubTask_records_or_rejects:
  assumes ok: "copyConfigFromSource e c (cfg w) = Inr c1"
    and bad: "copyConfigFromSource e cb (cfg wb) = Inl err"
  shows "fst (StartSubTask e w c expectStage) = None \<and>
     (\<exists>st. findSubTask (subTaskHolder (snd (StartSubTask e w c expectStage))) (Name c) = Some st \<and>
        (if closed w
         then stage st = Stage_Paused \<and>
              result st = Some \<lparr>IsCanceled = False, Errors = [ErrWorkerAlreadyClosed]\<rparr>
         else
           (case DecryptPassword e c1 of
              Inl derr \<Rightarrow>
                stage st = Stage_Paused \<and>
                result st = Some \<lparr>IsCanceled = False, Errors = [Annotate derr ''start sub task'']\<rparr>
            | Inr c2 \<Rightarrow>
                (if (case relayPurger w of None \<Rightarrow> False | Some p \<Rightarrow> purging p)
                 then stage st = Stage_Paused \<and>
                      result st =
                        Some \<lparr>IsCanceled = False, Errors = [ErrWorkerRelayIsPurging (Name c)]\<rparr>
                 else st = SubTask_Run expectStage (NewSubTask c1\<lparr>st_cfg := c2\<rparr>))))) \<and>
     StartSubTask e wb cb expectStage = (Some err, wb)"
proof -
  from ok have n: "Name c1 = Name c" by (rule copyConfigFromSource_Name)
  have rejected: "StartSubTask e wb cb expectStage = (Some err, wb)"
    using bad by (simp add: StartSubTask_def)
  have success: "fst (StartSubTask e w c expectStage) = None"
    using ok by (simp add: StartSubTask_def Let_def split: sum.splits)
  have recorded: "\<exists>st. findSubTask (subTaskHolder (snd (StartSubTask e w c expectStage))) (Name c) = Some st \<and>
        (if closed w
         then stage st = Stage_Paused \<and>
              result st = Some \<lparr>IsCanceled = False, Errors = [ErrWorkerAlreadyClosed]\<rparr>
         else
           (case DecryptPassword e c1 of
              Inl derr \<Rightarrow>
                stage st = Stage_Paused \<and>
                result st = Some \<lparr>IsCanceled = False, Errors = [Annotate derr ''start sub task'']\<rparr>
            | Inr c2 \<Rightarrow>
                (if (case relayPurger w of None \<Rightarrow> False | Some p \<Rightarrow> purging p)
                 then stage st = Stage_Paused \<and>
                      result st =
                        Some \<lparr>IsCanceled = False, Errors = [ErrWorkerRelayIsPurging (Name c)]\<rparr>
                 else st = SubTask_Run expectStage (NewSubTask c1\<lparr>st_cfg := c2\<rparr>))))"
    using ok n
    by (simp add: StartSubTask_def Let_def findSubTask_onSubTask findSubTask_recordSubTask
        NewSubTask_def SubTask_fail_def split: sum.splits)
  from success recorded rejected show ?thesis by blast
qed

lemma ex_rejection:
  "copyConfigFromSource ex_externals ex_task_invalid ex_source =
     Inl (ErrExternal ''invalid binlog event rule'')"
  by (simp add: ex_filter_defs ex_task_def ex_task_invalid_def ex_source_def)

lemma cfg_ex_closed: "cfg ex_closed = ex_source" "cfg ex_open = ex_source"
  by (simp_all add: ex_closed_def ex_open_def)

text \<open>Both premises of the theorem hold on the examples: a closed Worker with a valid task, an open Worker with a task whose filter rule has no action.\<close>

theorem StartSubTask_records_or_rejects_witness:
  "closed ex_closed \<and>
   fst (StartSubTask ex_externals ex_closed ex_task Stage_Running) = None \<and>
   (\<exists>st. findSubTask (subTaskHolder (snd (StartSubTask ex_externals ex_closed ex_task Stage_Running)))
            ''t'' = Some st \<and>
         stage st = Stage_Paused \<and>
         result st = Some \<lparr>IsCanceled = False, Errors = [ErrWorkerAlreadyClosed]\<rparr>) \<and>
   StartSubTask ex_externals ex_open ex_task_invalid Stage_Running =
     (Some (ErrExternal ''invalid binlog event rule''), ex_open)"
proof -
  have ok: "copyConfigFromSource ex_externals ex_task (cfg ex_closed) = Inr ex_task_projected"
    by (simp add: cfg_ex_closed ex_projection)
  have bad: "copyConfigFromSource ex_externals ex_task_invalid (cfg ex_open) =
      Inl (ErrExternal ''invalid binlog event rule'')"
    by (simp add: cfg_ex_closed ex_rejection)
  have c: "closed ex_closed" by (simp add: ex_closed_def)
  have n: "Name ex_task = ''t''" by (simp add: ex_task_def)
  from StartSubTask_records_or_rejects [OF ok bad, of Stage_Running] c n
  show ?thesis by simp
qed

text \<open>
  Claim C3 as stated fails: for a task whose filter rule is not valid, StartSubTask
  returns the error of the projection and the holder has no subtask of that name.
\<close>

theorem StartSubTask_failure_counterexample:
  "fst (StartSubTask ex_externals ex_open ex_task_invalid Stage_Running)
     = Some (ErrExternal ''invalid binlog event rule'') \<and>
   findSubTask (subTaskHolder (snd (StartSubTask ex_externals ex_open ex_task_invalid Stage_Running)))
     (Name ex_task_invalid) = None"
  by (simp add: StartSubTask_def cfg_ex_closed ex_rejection) (simp add: ex_open_def findSubTask_def)

subsection \<open>Stage translation\<close>

lemma OperateSubTask_InvalidOp_frame: "snd (OperateSubTask w n TaskOp_InvalidOp) = w"
  by (simp add: OperateSubTask_def split: option.splits)

lemma OperateSubTask_Stop_removes:
  "findSubTask (subTaskHolder (snd (OperateSubTask w n TaskOp_Stop))) n =
     (if closed w then findSubTask (subTaskHolder w) n else None)"
  by (simp add: OperateSubTask_def Let_def findSubTask_removeSubTask split: option.splits)

lemma operateSubTaskStage_cases:
  "operateSubTaskStage e w s c =
     (if (Expect s = Stage_Running \<or> Expect s = Stage_Paused)
          \<and> findSubTask (subTaskHolder w) (Task s) = None
      then (opErrTypeBeforeOp e, StartSubTask e w c (Expect s))
      else if Expect s = Stage_Running
      then (''Resume'', OperateSubTask w (Task s) TaskOp_Resume)
      else if Expect s = Stage_Paused
      then (''Pause'', OperateSubTask w (Task s) TaskOp_Pause)
      else if IsDeleted s
      then (''Stop'', OperateSubTask w (Task s) TaskOp_Stop)
      else (''InvalidOp'', OperateSubTask w (Task s) TaskOp_InvalidOp))"
  by (simp add: operateSubTaskStage_def Let_def split: option.splits)

text \<open>
  Away from the records that are marked deleted, expect Running or Paused and name a
  subtask that is not recorded, the code leaves the Worker that the translation of the
  specification leaves.
\<close>

lemma operateSubTaskStage_follows_translation:
  assumes "\<not> (IsDeleted s \<and> (Expect s = Stage_Running \<or> Expect s = Stage_Paused)
              \<and> findSubTask (subTaskHolder w) (Task s) = None)"
  shows "snd (snd (operateSubTaskStage e w s c)) = stageTranslation_spec e w s c"
  using assms
  by (auto simp: operateSubTaskStage_cases stageTranslation_spec_def
      OperateSubTask_InvalidOp_frame)




text \<open>
  Claim C10. For a record that is not deleted and whose expected stage is neither Running
  nor Paused, operateSubTaskStage falls through both cases and calls OperateSubTask with
  the zero-valued operation (on any Worker \<open>w0\<close>). On an open Worker \<open>w\<close>
  that holds the task, this returns the invalid-operation error and leaves the Worker, and
  so the stage of the subtask, unchanged.
\<close>

theorem operateSubTaskStage_invalid_op:
  assumes "\<not> IsDeleted s" and "Expect s \<noteq> Stage_Running" and "Expect s \<noteq> Stage_Paused"
    and "\<not> closed w" and "findSubTask (subTaskHolder w) (Task s) = Some st"
  shows "operateSubTaskStage e w0 s c =
           (TaskOp_String TaskOp_InvalidOp, OperateSubTask w0 (Task s) TaskOp_InvalidOp) \<and>
         operateSubTaskStage e w s c =
           (''InvalidOp'',
            Some (ErrWorkerUpdateTaskStage (''invalid operate InvalidOp on subtask '' @ Task s)),
            w) \<and>
         map_option stage
           (findSubTask (subTaskHolder (snd (snd (operateSubTaskStage e w s c)))) (Task s))
           = Some (stage st)"
  using assms by (simp add: operateSubTaskStage_def OperateSubTask_def)

text \<open>A record that expects Finished, on a closed Worker and on an open Worker that holds the task.\<close>

theorem operateSubTaskStage_invalid_op_witness:
  "\<not> IsDeleted (ex_stage Stage_Finished False) \<and>
   \<not> closed (ex_holding [(''t'', Stage_Running)]) \<and>
   operateSubTaskStage ex_externals ex_closed (ex_stage Stage_Finished False) ex_task =
     (''InvalidOp'', OperateSubTask ex_closed ''t'' TaskOp_InvalidOp) \<and>
   operateSubTaskStage ex_externals (ex_holding [(''t'', Stage_Running)])
       (ex_stage Stage_Finished False) ex_task =
     (''InvalidOp'', Some (ErrWorkerUpdateTaskStage ''invalid operate InvalidOp on subtask t''),
      ex_holding [(''t'', Stage_Running)])"
proof -
  have a: "\<not> IsDeleted (ex_stage Stage_Finished False)"
    "Expect (ex_stage Stage_Finished False) \<noteq> Stage_Running"
    "Expect (ex_stage Stage_Finished False) \<noteq> Stage_Paused"
    by (simp_all add: ex_stage_def)
  have b: "\<not> closed (ex_holding [(''t'', Stage_Running)])"
    by (simp add: ex_holding_def ex_open_def)
  have f: "findSubTask (subTaskHolder (ex_holding [(''t'', Stage_Running)]))
      (Task (ex_stage Stage_Finished False)) = Some (ex_subtask ''t'' Stage_Running)"
    by (simp add: ex_holding_def ex_stage_def findSubTask_def)
  from operateSubTaskStage_invalid_op [OF a b f, of ex_externals ex_closed ex_task] a b
  show ?thesis by (simp add: ex_stage_def)
qed

text \<open>
  Claim C6. UpdateSubTask, OperateSubTask, OperateSchema and HandleError: on a closed
  Worker \<open>wc\<close> each returns the already-closed error and changes nothing; on an
  open Worker \<open>wo\<close> that records no subtask of the given name each returns the
  not-found error for that name and changes nothing.
\<close>

theorem mutating_operations_guarded:
  assumes "closed wc" and "\<not> closed wo"
    and "findSubTask (subTaskHolder wo) (Name c) = None"
    and "findSubTask (subTaskHolder wo) n = None"
    and "findSubTask (subTaskHolder wo) (schema_Task sreq) = None"
    and "findSubTask (subTaskHolder wo) (handle_Task hreq) = None"
  shows "UpdateSubTask wc c' = (Some ErrWorkerAlreadyClosed, wc) \<and>
         OperateSubTask wc n' op' = (Some ErrWorkerAlreadyClosed, wc) \<and>
         OperateSchema e wc sreq' = (('''', Some ErrWorkerAlreadyClosed), wc) \<and>
         HandleError e wc hreq' = (Some ErrWorkerAlreadyClosed, wc) \<and>
         UpdateSubTask wo c = (Some (ErrWorkerSubTaskNotFound (Name c)), wo) \<and>
         OperateSubTask wo n op = (Some (ErrWorkerSubTaskNotFound n), wo) \<and>
         OperateSchema e wo sreq = (('''', Some (ErrWorkerSubTaskNotFound (schema_Task sreq))), wo) \<and>
         HandleError e wo hreq = (Some (ErrWorkerSubTaskNotFound (handle_Task hreq)), wo)"
  using assms
  by (simp add: UpdateSubTask_def OperateSubTask_def OperateSchema_def HandleError_def)

text \<open>The eight results on a closed Worker and on an open Worker with an empty holder.\<close>

theorem mutating_operations_guarded_witness:
  "closed ex_closed \<and> \<not> closed ex_open \<and>
   UpdateSubTask ex_closed ex_task = (Some ErrWorkerAlreadyClosed, ex_closed) \<and>
   OperateSubTask ex_closed ''t'' TaskOp_Pause = (Some ErrWorkerAlreadyClosed, ex_closed) \<and>
   OperateSchema ex_externals ex_closed \<lparr>schema_Task = ''t'', schema_Body = ''get''\<rparr> =
     (('''', Some ErrWorkerAlreadyClosed), ex_closed) \<and>
   HandleError ex_externals ex_closed \<lparr>handle_Task = ''t'', handle_Body = ''skip''\<rparr> =
     (Some ErrWorkerAlreadyClosed, ex_closed) \<and>
   UpdateSubTask ex_open ex_task = (Some (ErrWorkerSubTaskNotFound ''t''), ex_open) \<and>
   OperateSubTask ex_open ''t'' TaskOp_Pause = (Some (ErrWorkerSubTaskNotFound ''t''), ex_open) \<and>
   OperateSchema ex_externals ex_open \<lparr>schema_Task = ''t'', schema_Body = ''get''\<rparr> =
     (('''', Some (ErrWorkerSubTaskNotFound ''t'')), ex_open) \<and>
   HandleError ex_externals ex_open \<lparr>handle_Task = ''t'', handle_Body = ''skip''\<rparr> =
     (Some (ErrWorkerSubTaskNotFound ''t''), ex_open)"
proof -
  have c: "closed ex_closed" "\<not> closed ex_open" by (simp_all add: ex_closed_def ex_open_def)
  have f: "findSubTask (subTaskHolder ex_open) (Name ex_task) = None"
    "findSubTask (subTaskHolder ex_open) ''t'' = None"
    "findSubTask (subTaskHolder ex_open) (schema_Task \<lparr>schema_Task = ''t'', schema_Body = ''get''\<rparr>) = None"
    "findSubTask (subTaskHolder ex_open) (handle_Task \<lparr>handle_Task = ''t'', handle_Body = ''skip''\<rparr>) = None"
    by (simp_all add: ex_open_def findSubTask_def)
  have n: "Name ex_task = ''t''" by (simp add: ex_task_def)
  from mutating_operations_guarded [OF c f, of ex_task "''t''" TaskOp_Pause ex_externals
      "\<lparr>schema_Task = ''t'', schema_Body = ''get''\<rparr>"
      "\<lparr>handle_Task = ''t'', handle_Body = ''skip''\<rparr>" TaskOp_Pause] c n
  show ?thesis by simp
qed

text \<open>
  Claim C2, evaluated where the code departs from it. The record expects Paused, no subtask
  \<open>t\<close> is recorded and the store holds no configuration for \<open>t\<close>:
  operateSubTaskStageWithoutConfig does not read the store, reports no error and records a
  subtask built from the zero-valued configuration, under the empty name. With Running
  expected, the same record gives the configuration-missing error and an unchanged Worker.
\<close>

theorem operateSubTaskStageWithoutConfig_paused_skips_fetch:
  "Expect (ex_stage Stage_Paused False) = Stage_Paused \<and>
   findSubTask (subTaskHolder ex_open) (Task (ex_stage Stage_Paused False)) = None \<and>
   GetSubTaskCfg ex_externals ''mysql-01'' ''t'' 7 = Inr [] \<and>
   fst (snd (operateSubTaskStageWithoutConfig ex_externals ex_open (ex_stage Stage_Paused False)))
     = None \<and>
   map fst (subTaskHolder (snd (snd
     (operateSubTaskStageWithoutConfig ex_externals ex_open (ex_stage Stage_Paused False))))) = ['''']  \<and>
   operateSubTaskStageWithoutConfig ex_externals ex_open (ex_stage Stage_Running False) =
     (''BeforeAnyOp'', Some (ErrWorkerFailToGetSubtaskConfigFromEtcd ''t''), ex_open)"
proof -
  have s: "Expect (ex_stage Stage_Paused False) = Stage_Paused"
    "Task (ex_stage Stage_Paused False) = ''t''"
    "Expect (ex_stage Stage_Running False) = Stage_Running"
    "Task (ex_stage Stage_Running False) = ''t''"
    "Source (ex_stage Stage_Running False) = ''mysql-01''"
    "Revision (ex_stage Stage_Running False) = 7"
    by (simp_all add: ex_stage_def)
  have h: "findSubTask (subTaskHolder ex_open) ''t'' = None" "\<not> closed ex_open"
    "relayPurger ex_open = None" "subTaskHolder ex_open = []"
    by (simp_all add: ex_open_def findSubTask_def)
  have g: "GetSubTaskCfg ex_externals ''mysql-01'' ''t'' 7 = Inr []"
    "opErrTypeBeforeOp ex_externals = ''BeforeAnyOp''"
    "DecryptPassword ex_externals = Inr"
    by (simp_all add: ex_externals_def)
  have z: "\<exists>c1. copyConfigFromSource ex_externals zeroSubTaskConfig ex_source = Inr c1 \<and> Name c1 = ''''"
    by (simp add: ex_filter_defs ex_source_def)
  then obtain c1 where c1: "copyConfigFromSource ex_externals zeroSubTaskConfig ex_source = Inr c1"
    "Name c1 = ''''" by blast
  have paused: "fst (snd (operateSubTaskStageWithoutConfig ex_externals ex_open (ex_stage Stage_Paused False))) = None"
    "map fst (subTaskHolder (snd (snd
     (operateSubTaskStageWithoutConfig ex_externals ex_open (ex_stage Stage_Paused False))))) = ['''']"
    by (simp_all add: operateSubTaskStageWithoutConfig_def operateSubTaskStage_def s h g
        StartSubTask_def cfg_ex_closed c1 Let_def onSubTask_def recordSubTask_def NewSubTask_def
        findSubTask_def)
  have running: "operateSubTaskStageWithoutConfig ex_externals ex_open (ex_stage Stage_Running False) =
     (''BeforeAnyOp'', Some (ErrWorkerFailToGetSubtaskConfigFromEtcd ''t''), ex_open)"
    by (simp add: operateSubTaskStageWithoutConfig_def s h g findSubTask_def)
  from s h g paused running show ?thesis by simp
qed

subsection \<open>ForbidPurge\<close>

lemma forbidPurgeLoop_fst:
  "fst (forbidPurgeLoop h) \<longleftrightarrow>
     (\<exists>st \<in> snd ` set h. stage st = Stage_New \<or> stage st = Stage_Paused)"
  by (induction h rule: forbidPurgeLoop.induct) auto

lemma forbidPurgeLoop_reason:
  "fst (forbidPurgeLoop h) \<Longrightarrow>
     \<exists>st \<in> snd ` set h. (stage st = Stage_New \<or> stage st = Stage_Paused) \<and>
       snd (forbidPurgeLoop h) =
         ''sub task '' @ Name (st_cfg st) @ '' current stage is '' @ Stage_String (stage st)"
  by (induction h rule: forbidPurgeLoop.induct) (auto split: if_splits)

lemma forbidPurgeLoop_none: "\<not> fst (forbidPurgeLoop h) \<Longrightarrow> forbidPurgeLoop h = (False, '''')"
  by (induction h rule: forbidPurgeLoop.induct) (auto split: if_splits)

text \<open>
  Claim C4. ForbidPurge returns \<open>(False, [])\<close> on a closed Worker \<open>wc\<close>.
  On an open Worker \<open>wo\<close> its first component is true exactly when some subtask of
  the holder is in stage New or Paused; then the reason is
  \<open>sub task NAME current stage is STAGE\<close> for such a subtask, and otherwise the
  result is \<open>(False, [])\<close>.
\<close>

theorem ForbidPurge_spec:
  assumes "closed wc" and "\<not> closed wo"
  shows "ForbidPurge wc = (False, '''') \<and>
     (fst (ForbidPurge wo) \<longleftrightarrow>
        (\<exists>st \<in> snd ` set (subTaskHolder wo). stage st = Stage_New \<or> stage st = Stage_Paused)) \<and>
     (if fst (ForbidPurge wo)
      then \<exists>st \<in> snd ` set (subTaskHolder wo).
             (stage st = Stage_New \<or> stage st = Stage_Paused) \<and>
             snd (ForbidPurge wo) =
               ''sub task '' @ Name (st_cfg st) @ '' current stage is '' @ Stage_String (stage st)
      else ForbidPurge wo = (False, ''''))"
proof -
  have c: "ForbidPurge wc = (False, '''')"
    using assms(1) by (simp add: ForbidPurge_def)
  have o: "ForbidPurge wo = forbidPurgeLoop (subTaskHolder wo)"
    using assms(2) by (simp add: ForbidPurge_def getAllSubTasks_def)
  show ?thesis
    unfolding o
    using c forbidPurgeLoop_fst [of "subTaskHolder wo"]
      forbidPurgeLoop_reason [of "subTaskHolder wo"] forbidPurgeLoop_none [of "subTaskHolder wo"]
    by (simp only: o split: if_splits) auto
qed

text \<open>Scenario S4 of the specification: a Paused subtask forbids the purge, with its name in the reason; once it runs, nothing does.\<close>

theorem ForbidPurge_spec_witness:
  "closed ex_closed \<and> \<not> closed (ex_holding [(''a'', Stage_Running), (''t'', Stage_Paused)]) \<and>
   ForbidPurge ex_closed = (False, '''') \<and>
   ForbidPurge (ex_holding [(''a'', Stage_Running), (''t'', Stage_Paused)]) =
     (True, ''sub task t current stage is Paused'') \<and>
   ForbidPurge (ex_holding [(''a'', Stage_Running), (''t'', Stage_Running)]) = (False, '''')"
proof -
  have c: "closed ex_closed" by (simp add: ex_closed_def)
  have o: "\<not> closed (ex_holding [(''a'', Stage_Running), (''t'', Stage_Paused)])"
    "\<not> closed (ex_holding [(''a'', Stage_Running), (''t'', Stage_Running)])"
    by (simp_all add: ex_holding_def ex_open_def)
  have h: "subTaskHolder (ex_holding [(''a'', Stage_Running), (''t'', Stage_Paused)]) =
      [(''a'', ex_subtask ''a'' Stage_Running), (''t'', ex_subtask ''t'' Stage_Paused)]"
    "subTaskHolder (ex_holding [(''a'', Stage_Running), (''t'', Stage_Running)]) =
      [(''a'', ex_subtask ''a'' Stage_Running), (''t'', ex_subtask ''t'' Stage_Running)]"
    by (simp_all add: ex_holding_def)
  have s: "stage (ex_subtask n x) = x" "Name (st_cfg (ex_subtask n x)) = n" for n x
    by (simp_all add: ex_subtask_def)
  from ForbidPurge_spec [OF c o(1)] ForbidPurge_spec [OF c o(2)] c o
  show ?thesis
    by (auto simp: h s split: if_splits intro: prod_eqI)
qed

subsection \<open>Close\<close>

lemma NewWorker_checker:
  "NewWorker e c n = Inr w \<Longrightarrow>
     closed w \<and> cfg w = c \<and> (if CheckEnable c then taskStatusChecker w \<noteq> None else True)"
  by (auto simp: NewWorker_def Let_def split: if_splits option.splits)

text \<open>
  Claim C5. Close on a closed Worker \<open>wc\<close> does nothing. On an open Worker
  \<open>wo\<close> (whose checker was built if its configuration enables one, as NewWorker
  ensures) Close returns: it cancels the root context, waits for the background loops,
  takes the lock, closes all subtasks, the relay holder if there is one, the purger if
  there is one, the checker if enabled, and sets the closed flag last. The Worker it leaves
  is closed, with an empty holder, and a second Close on it does nothing.
\<close>

theorem Close_spec:
  assumes "closed wc" and "\<not> closed wo"
    and "CheckEnable (cfg wo) \<Longrightarrow> taskStatusChecker wo \<noteq> None"
  shows "Close wc = Some ([], wc) \<and>
     (\<exists>tr w'. Close wo = Some (tr, w') \<and>
        tr = [CancelContext, WaitLoops, LockWorker, CloseAllSubTasks]
             @ (if relayHolder wo = None then [] else [CloseRelayHolder])
             @ (if relayPurger wo = None then [] else [ClosePurger])
             @ (if CheckEnable (cfg wo) then [CloseChecker] else [])
             @ [SetClosed, UnlockWorker] \<and>
        closed w' \<and> ctxDone w' \<and> wg w' = 0 \<and> subTaskHolder w' = [] \<and>
        relayHolder w' = map_option (\<lambda>r. r\<lparr>relay_closed := True\<rparr>) (relayHolder wo) \<and>
        relayPurger w' = map_option (\<lambda>p. p\<lparr>purger_closed := True\<rparr>) (relayPurger wo) \<and>
        taskStatusChecker w' =
          (if CheckEnable (cfg wo)
           then map_option (\<lambda>c. c\<lparr>checker_closed := True\<rparr>) (taskStatusChecker wo)
           else taskStatusChecker wo) \<and>
        cfg w' = cfg wo \<and> name w' = name wo \<and>
        Close w' = Some ([], w'))"
proof -
  have c: "Close wc = Some ([], wc)" using assms(1) by (simp add: Close_def)
  have o: "\<exists>tr w'. Close wo = Some (tr, w') \<and>
        tr = [CancelContext, WaitLoops, LockWorker, CloseAllSubTasks]
             @ (if relayHolder wo = None then [] else [CloseRelayHolder])
             @ (if relayPurger wo = None then [] else [ClosePurger])
             @ (if CheckEnable (cfg wo) then [CloseChecker] else [])
             @ [SetClosed, UnlockWorker] \<and>
        closed w' \<and> ctxDone w' \<and> wg w' = 0 \<and> subTaskHolder w' = [] \<and>
        relayHolder w' = map_option (\<lambda>r. r\<lparr>relay_closed := True\<rparr>) (relayHolder wo) \<and>
        relayPurger w' = map_option (\<lambda>p. p\<lparr>purger_closed := True\<rparr>) (relayPurger wo) \<and>
        taskStatusChecker w' =
          (if CheckEnable (cfg wo)
           then map_option (\<lambda>c. c\<lparr>checker_closed := True\<rparr>) (taskStatusChecker wo)
           else taskStatusChecker wo) \<and>
        cfg w' = cfg wo \<and> name w' = name wo \<and>
        Close w' = Some ([], w')"
  proof (cases "CheckEnable (cfg wo)")
    case True
    with assms(3) obtain ch where ch: "taskStatusChecker wo = Some ch" by auto
    with True assms(2) show ?thesis
      by (cases "relayHolder wo"; cases "relayPurger wo")
        (simp_all add: Close_def Let_def closeAllSubTasks_def)
  next
    case False
    with assms(2) show ?thesis
      by (cases "relayHolder wo"; cases "relayPurger wo")
        (simp_all add: Close_def Let_def closeAllSubTasks_def)
  qed
  from c o show ?thesis by blast
qed

text \<open>Close on a closed Worker and on an open Worker that holds a running subtask.\<close>

theorem Close_spec_witness:
  "closed ex_closed \<and> \<not> closed (ex_holding [(''t'', Stage_Running)]) \<and>
   Close ex_closed = Some ([], ex_closed) \<and>
   Close (ex_holding [(''t'', Stage_Running)]) =
     Some ([CancelContext, WaitLoops, LockWorker, CloseAllSubTasks, CloseChecker, SetClosed,
            UnlockWorker],
           ex_open\<lparr>closed := True, ctxDone := True, wg := 0,
             taskStatusChecker := Some \<lparr>checker_started = True, checker_closed = True\<rparr>\<rparr>)"
proof -
  have c: "closed ex_closed" by (simp add: ex_closed_def)
  have o: "\<not> closed (ex_holding [(''t'', Stage_Running)])"
    by (simp add: ex_holding_def ex_open_def)
  have k: "CheckEnable (cfg (ex_holding [(''t'', Stage_Running)])) \<Longrightarrow>
      taskStatusChecker (ex_holding [(''t'', Stage_Running)]) \<noteq> None"
    by (simp add: ex_holding_def ex_open_def)
  from Close_spec [OF c o k] obtain tr w' where
    r: "Close (ex_holding [(''t'', Stage_Running)]) = Some (tr, w')"
    and tr: "tr = [CancelContext, WaitLoops, LockWorker, CloseAllSubTasks]
             @ (if relayHolder (ex_holding [(''t'', Stage_Running)]) = None then [] else [CloseRelayHolder])
             @ (if relayPurger (ex_holding [(''t'', Stage_Running)]) = None then [] else [ClosePurger])
             @ (if CheckEnable (cfg (ex_holding [(''t'', Stage_Running)])) then [CloseChecker] else [])
             @ [SetClosed, UnlockWorker]"
    and w': "closed w'" "ctxDone w'" "wg w' = 0" "subTaskHolder w' = []"
      "relayHolder w' = map_option (\<lambda>r. r\<lparr>relay_closed := True\<rparr>) (relayHolder (ex_holding [(''t'', Stage_Running)]))"
      "relayPurger w' = map_option (\<lambda>p. p\<lparr>purger_closed := True\<rparr>) (relayPurger (ex_holding [(''t'', Stage_Running)]))"
      "taskStatusChecker w' =
          (if CheckEnable (cfg (ex_holding [(''t'', Stage_Running)]))
           then map_option (\<lambda>c. c\<lparr>checker_closed := True\<rparr>) (taskStatusChecker (ex_holding [(''t'', Stage_Running)]))
           else taskStatusChecker (ex_holding [(''t'', Stage_Running)]))"
      "cfg w' = cfg (ex_holding [(''t'', Stage_Running)])" "name w' = name (ex_holding [(''t'', Stage_Running)])"
    by blast
  have tr': "tr = [CancelContext, WaitLoops, LockWorker, CloseAllSubTasks, CloseChecker, SetClosed,
            UnlockWorker]"
    using tr by (simp add: ex_holding_def ex_open_def ex_source_def)
  have "w' = ex_open\<lparr>closed := True, ctxDone := True, wg := 0,
             taskStatusChecker := Some \<lparr>checker_started = True, checker_closed = True\<rparr>\<rparr>"
    using w' by (simp add: ex_holding_def ex_open_def ex_source_def)
  with r tr' c o Close_spec [OF c o k] show ?thesis by simp
qed

subsection \<open>EnableRelay\<close>

lemma copyConfigFromSourceForEach_ok:
  "copyConfigFromSourceForEach e m sourceCfg = Inr m' \<Longrightarrow>
     list_all2 (\<lambda>(k, c) (k', c'). k' = k \<and> copyConfigFromSource e c sourceCfg = Inr c') m m'"
proof (induction m arbitrary: m')
  case Nil
  then show ?case by simp
next
  case (Cons p m)
  obtain k c where p: "p = (k, c)" by (cases p)
  from Cons.prems p obtain c' rest where c': "copyConfigFromSource e c sourceCfg = Inr c'"
    and r: "copyConfigFromSourceForEach e m sourceCfg = Inr rest" and m': "m' = (k, c') # rest"
    by (auto split: sum.splits)
  from Cons.IH [OF r] c' p m' show ?case by simp
qed

text \<open>
  Claim C7. After a successful EnableRelay on a store that holds the subtask configurations
  \<open>subTaskCfgM\<close> for the Worker's source: each stored configuration has a projection
  on the source configuration, under the same key; these projections are the subtasks
  whose checkpoints \<open>getMinLocInAllSubTasks\<close> reads, and it returns a minimum location.
  When that minimum is \<open>nil\<close>, \<open>cfg.UUIDSuffix\<close> is \<open>MinUUIDSuffix\<close>; otherwise
  \<open>cfg.UUIDSuffix\<close> is the suffix that ExtractSuffix returns, without error, for the
  binlog file name of the minimum location, \<open>RelayBinLogName\<close> is the file name of
  the adjusted position and \<open>RelayBinlogGTID\<close> the GTID set of that location.
\<close>

theorem EnableRelay_UUIDSuffix:
  assumes "EnableRelay e w = (None, w')"
    and "GetSubTaskStageConfig e (SourceID (cfg w)) = Inr (subTaskStages, subTaskCfgM, revSubTask)"
  shows "\<exists>subTaskCfgs minLoc.
      list_all2 (\<lambda>(k, c) (k', c'). k' = k \<and> copyConfigFromSource e c (cfg w) = Inr c')
        subTaskCfgM subTaskCfgs \<and>
      getMinLocInAllSubTasks e subTaskCfgs = Inr minLoc \<and>
      (case minLoc of
         None \<Rightarrow> UUIDSuffix (cfg w') = MinUUIDSuffix e
       | Some loc \<Rightarrow>
           ExtractSuffix e (pos_Name (loc_Position loc)) = (UUIDSuffix (cfg w'), None) \<and>
           RelayBinLogName (cfg w') = pos_Name (AdjustPosition e (loc_Position loc)) \<and>
           RelayBinlogGTID (cfg w') = loc_GTIDSetStr loc)"
proof -
  from assms obtain subTaskCfgs where
    each: "copyConfigFromSourceForEach e subTaskCfgM (cfg w) = Inr subTaskCfgs"
    and fetch: "fetchSubTasksAndAdjust e w = Inr (subTaskStages, subTaskCfgs, revSubTask)"
    by (auto simp: EnableRelay_def fetchSubTasksAndAdjust_def split: sum.splits)
  from assms(1) fetch obtain minLoc where
    m: "getMinLocInAllSubTasks e subTaskCfgs = Inr minLoc"
    by (auto simp: EnableRelay_def split: sum.splits)
  have suffix: "case minLoc of
         None \<Rightarrow> UUIDSuffix (cfg w') = MinUUIDSuffix e
       | Some loc \<Rightarrow>
           ExtractSuffix e (pos_Name (loc_Position loc)) = (UUIDSuffix (cfg w'), None) \<and>
           RelayBinLogName (cfg w') = pos_Name (AdjustPosition e (loc_Position loc)) \<and>
           RelayBinlogGTID (cfg w') = loc_GTIDSetStr loc"
    using assms(1) fetch m
    by (auto simp: EnableRelay_def adjustRelayStart_def Let_def
        split: option.splits sum.splits prod.splits if_splits intro: prod_eqI)
  from copyConfigFromSourceForEach_ok [OF each] m suffix show ?thesis by blast
qed

lemma ex_projection_s6:
  "copyConfigFromSource ex_externals_s6 (ex_task\<lparr>Name := n\<rparr>) ex_source =
     Inr (ex_task_projected\<lparr>Name := n\<rparr>)"
  by (simp add: ex_filter_defs ex_externals_s6_def ex_task_def ex_source_def
      ex_task_projected_def)

lemma ex_store:
  "GetSubTaskStageConfig ex_externals source = Inr ([], [], 7)"
  "GetSubTaskStageConfig ex_externals_s6 source =
     Inr ([(''t1'', (ex_stage Stage_Running False)\<lparr>Task := ''t1''\<rparr>),
           (''t2'', (ex_stage Stage_Running False)\<lparr>Task := ''t2''\<rparr>),
           (''t3'', (ex_stage Stage_Running False)\<lparr>Task := ''t3''\<rparr>)],
          [(''t1'', ex_task\<lparr>Name := ''t1''\<rparr>), (''t2'', ex_task\<lparr>Name := ''t2''\<rparr>),
           (''t3'', ex_task\<lparr>Name := ''t3''\<rparr>)], 7)"
  by (simp_all add: ex_externals_def ex_externals_s6_def)

lemma ex_minimum:
  "getMinLocInAllSubTasks ex_externals [] = Inr None"
  "getMinLocInAllSubTasks ex_externals_s6
     [(''t1'', ex_task_projected\<lparr>Name := ''t1''\<rparr>), (''t2'', ex_task_projected\<lparr>Name := ''t2''\<rparr>),
      (''t3'', ex_task_projected\<lparr>Name := ''t3''\<rparr>)] =
     Inr (Some (ex_location ''mysql-bin|000003.000050'' 154 ''uuid-1:1-20''))"
  by (simp_all add: ex_externals_def ex_externals_s6_def ex_checkpoints_def locLess_def
      ex_location_def)

lemma ex_EnableRelay_ok:
  "fst (EnableRelay ex_externals ex_open) = None"
  "fst (EnableRelay ex_externals_s6 ex_open) = None"
proof -
  have f: "fetchSubTasksAndAdjust ex_externals ex_open = Inr ([], [], 7)"
    by (simp add: fetchSubTasksAndAdjust_def ex_store)
  have g: "fetchSubTasksAndAdjust ex_externals_s6 ex_open =
      Inr ([(''t1'', (ex_stage Stage_Running False)\<lparr>Task := ''t1''\<rparr>),
            (''t2'', (ex_stage Stage_Running False)\<lparr>Task := ''t2''\<rparr>),
            (''t3'', (ex_stage Stage_Running False)\<lparr>Task := ''t3''\<rparr>)],
           [(''t1'', ex_task_projected\<lparr>Name := ''t1''\<rparr>), (''t2'', ex_task_projected\<lparr>Name := ''t2''\<rparr>),
            (''t3'', ex_task_projected\<lparr>Name := ''t3''\<rparr>)], 7)"
    by (simp add: fetchSubTasksAndAdjust_def ex_store cfg_ex_closed ex_projection_s6)
  have x: "ExtractSuffix ex_externals_s6 ''mysql-bin|000003.000050'' = (3, None)"
    "relayHolderInit ex_externals c =
       Inr \<lparr>purging = False, purger_started = False, purger_closed = False\<rparr>"
    "relayHolderInit ex_externals_s6 c =
       Inr \<lparr>purging = False, purger_started = False, purger_closed = False\<rparr>"
    "GetRelayStage ex_externals source =
       Inr (\<lparr>Expect = Stage_Running, Source = source, Task = '''', IsDeleted = False,
              Revision = 7\<rparr>, 7)"
    "GetRelayStage ex_externals_s6 source =
       Inr (\<lparr>Expect = Stage_Running, Source = source, Task = '''', IsDeleted = False,
              Revision = 7\<rparr>, 7)" for c source
    by (simp_all add: ex_externals_def ex_externals_s6_def)
  show "fst (EnableRelay ex_externals ex_open) = None"
    by (simp add: EnableRelay_def f ex_minimum adjustRelayStart_def Let_def x)
  show "fst (EnableRelay ex_externals_s6 ex_open) = None"
    by (simp add: EnableRelay_def g ex_minimum adjustRelayStart_def Let_def x ex_location_def)
qed

text \<open>
  On an empty store the suffix is the sentinel. On the store of scenario S6 of the
  specification, three subtasks with checkpoints in \<open>mysql-bin|000003.000123\<close>,
  \<open>mysql-bin|000004.000000\<close> and \<open>mysql-bin|000003.000050\<close>, the minimum is the
  third: the suffix is 3 and the relay starts at \<open>mysql-bin.000050\<close>.
\<close>

theorem EnableRelay_UUIDSuffix_witness:
  "fst (EnableRelay ex_externals ex_open) = None \<and>
   GetSubTaskStageConfig ex_externals (SourceID (cfg ex_open)) = Inr ([], [], 7) \<and>
   UUIDSuffix (cfg (snd (EnableRelay ex_externals ex_open))) = 1 \<and>
   fst (EnableRelay ex_externals_s6 ex_open) = None \<and>
   map fst (fst (snd (projr (GetSubTaskStageConfig ex_externals_s6 (SourceID (cfg ex_open))))))
     = [''t1'', ''t2'', ''t3''] \<and>
   UUIDSuffix (cfg (snd (EnableRelay ex_externals_s6 ex_open))) = 3 \<and>
   RelayBinLogName (cfg (snd (EnableRelay ex_externals_s6 ex_open))) = ''mysql-bin.000050'' \<and>
   RelayBinlogGTID (cfg (snd (EnableRelay ex_externals_s6 ex_open))) = ''uuid-1:1-20''"
proof -
  have a: "EnableRelay ex_externals ex_open = (None, snd (EnableRelay ex_externals ex_open))"
    using ex_EnableRelay_ok(1) by (simp add: prod_eq_iff)
  have b: "EnableRelay ex_externals_s6 ex_open = (None, snd (EnableRelay ex_externals_s6 ex_open))"
    using ex_EnableRelay_ok(2) by (simp add: prod_eq_iff)
  from EnableRelay_UUIDSuffix [OF a ex_store(1)] obtain cfgs0 minLoc0 where
    e0: "list_all2 (\<lambda>(k, c) (k', c'). k' = k \<and>
           copyConfigFromSource ex_externals c (cfg ex_open) = Inr c') [] cfgs0"
    and m0: "getMinLocInAllSubTasks ex_externals cfgs0 = Inr minLoc0"
    and s0: "case minLoc0 of
         None \<Rightarrow> UUIDSuffix (cfg (snd (EnableRelay ex_externals ex_open))) = MinUUIDSuffix ex_externals
       | Some loc \<Rightarrow>
           ExtractSuffix ex_externals (pos_Name (loc_Position loc)) =
             (UUIDSuffix (cfg (snd (EnableRelay ex_externals ex_open))), None) \<and>
           RelayBinLogName (cfg (snd (EnableRelay ex_externals ex_open))) =
             pos_Name (AdjustPosition ex_externals (loc_Position loc)) \<and>
           RelayBinlogGTID (cfg (snd (EnableRelay ex_externals ex_open))) = loc_GTIDSetStr loc"
    by blast
  from e0 have "cfgs0 = []" by simp
  with m0 ex_minimum(1) have "minLoc0 = None" by simp
  with s0 have r0: "UUIDSuffix (cfg (snd (EnableRelay ex_externals ex_open))) = 1"
    by (simp add: ex_externals_def)
  from EnableRelay_UUIDSuffix [OF b ex_store(2)] obtain cfgs1 minLoc1 where
    e1: "list_all2 (\<lambda>(k, c) (k', c'). k' = k \<and>
           copyConfigFromSource ex_externals_s6 c (cfg ex_open) = Inr c')
         [(''t1'', ex_task\<lparr>Name := ''t1''\<rparr>), (''t2'', ex_task\<lparr>Name := ''t2''\<rparr>),
          (''t3'', ex_task\<lparr>Name := ''t3''\<rparr>)] cfgs1"
    and m1: "getMinLocInAllSubTasks ex_externals_s6 cfgs1 = Inr minLoc1"
    and s1: "case minLoc1 of
         None \<Rightarrow> UUIDSuffix (cfg (snd (EnableRelay ex_externals_s6 ex_open))) = MinUUIDSuffix ex_externals_s6
       | Some loc \<Rightarrow>
           ExtractSuffix ex_externals_s6 (pos_Name (loc_Position loc)) =
             (UUIDSuffix (cfg (snd (EnableRelay ex_externals_s6 ex_open))), None) \<and>
           RelayBinLogName (cfg (snd (EnableRelay ex_externals_s6 ex_open))) =
             pos_Name (AdjustPosition ex_externals_s6 (loc_Position loc)) \<and>
           RelayBinlogGTID (cfg (snd (EnableRelay ex_externals_s6 ex_open))) = loc_GTIDSetStr loc"
    by blast
  from e1 have "cfgs1 =
      [(''t1'', ex_task_projected\<lparr>Name := ''t1''\<rparr>), (''t2'', ex_task_projected\<lparr>Name := ''t2''\<rparr>),
       (''t3'', ex_task_projected\<lparr>Name := ''t3''\<rparr>)]"
    by (auto simp: list_all2_Cons1 cfg_ex_closed ex_projection_s6)
  with m1 ex_minimum(2)
  have "minLoc1 = Some (ex_location ''mysql-bin|000003.000050'' 154 ''uuid-1:1-20'')" by simp
  with s1 have r1: "UUIDSuffix (cfg (snd (EnableRelay ex_externals_s6 ex_open))) = 3"
    "RelayBinLogName (cfg (snd (EnableRelay ex_externals_s6 ex_open))) = ''mysql-bin.000050''"
    "RelayBinlogGTID (cfg (snd (EnableRelay ex_externals_s6 ex_open))) = ''uuid-1:1-20''"
    by (simp_all add: ex_externals_s6_def ex_externals_def ex_location_def)
  from r0 r1 ex_EnableRelay_ok ex_store show ?thesis by (simp add: cfg_ex_closed)
qed

end
